theory Spec2Isabelle
  imports Main
begin

section \<open>Compatibility gate\<close>

text \<open>
  \<^verbatim>\<open>normalize_api_proposal(proposal)\<close> is \<^verbatim>\<open>proposal.split('@')[0]\<close>: everything
  before the first \<^verbatim>\<open>@\<close> (the whole string when there is none).
\<close>

definition normalize_api_proposal :: "string \<Rightarrow> string" where
  "normalize_api_proposal proposal = takeWhile (\<lambda>c. c \<noteq> CHR ''@'') proposal"

text \<open>
  The loop of \<^verbatim>\<open>check_api_compatibility\<close>: \<^verbatim>\<open>unsupported\<close> is the accumulator,
  extended at its end by every proposal whose base name is not supported.
\<close>

primrec collect_unsupported :: "string set \<Rightarrow> string list \<Rightarrow> string list \<Rightarrow> string list" where
  "collect_unsupported supported unsupported [] = unsupported"
| "collect_unsupported supported unsupported (proposal # rest) =
     (let base_name = normalize_api_proposal proposal in
      if base_name \<notin> supported
      then collect_unsupported supported (unsupported @ [proposal]) rest
      else collect_unsupported supported unsupported rest)"

definition check_api_compatibility :: "string list \<Rightarrow> string set \<Rightarrow> bool \<times> string list" where
  "check_api_compatibility required_proposals supported_proposals =
     (if supported_proposals = {} then (True, [])
      else
        let unsupported = collect_unsupported supported_proposals [] required_proposals;
            is_compatible = (length unsupported = 0)
        in (is_compatible, unsupported))"

section \<open>Engine version comparator\<close>

subsection \<open>Characters and three-way comparison\<close>

text \<open>
  Strings are lists of 8-bit characters, read as the code points U+0000 to U+00FF; text
  beyond that range is outside the model. \<open>is_space\<close> is what \<^verbatim>\<open>\s\<close> matches in a Python
  \<^verbatim>\<open>str\<close> pattern on that range, \<open>is_digit\<close> is \<^verbatim>\<open>[0-9]\<close> (and \<^verbatim>\<open>\d\<close> there), \<open>lower\<close> is
  \<^verbatim>\<open>str.lower\<close> on the ASCII letters, the only ones the patterns below capture.
\<close>

definition is_digit :: "char \<Rightarrow> bool" where
  "is_digit c \<longleftrightarrow> c \<in> set ''0123456789''"

definition is_space :: "char \<Rightarrow> bool" where
  "is_space c \<longleftrightarrow> c \<in> set [CHR 0x09, CHR 0x0A, CHR 0x0B, CHR 0x0C, CHR 0x0D,
                            CHR 0x1C, CHR 0x1D, CHR 0x1E, CHR 0x1F, CHR 0x20, CHR 0x85, CHR 0xA0]"

definition lower :: "char \<Rightarrow> char" where
  "lower c = (case map_of (zip ''ABCDEFGHIJKLMNOPQRSTUVWXYZ'' ''abcdefghijklmnopqrstuvwxyz'') c of
                Some l \<Rightarrow> l | None \<Rightarrow> c)"

definition is_alnum :: "char \<Rightarrow> bool" where
  "is_alnum c \<longleftrightarrow> lower c \<in> set ''abcdefghijklmnopqrstuvwxyz'' \<or> is_digit c"

definition is_sep :: "char \<Rightarrow> bool" where
  "is_sep c \<longleftrightarrow> c \<in> set ''-_.''"

text \<open>The exceptions that can leave the functions modelled here: \<^verbatim>\<open>InvalidVersion\<close> of the
  \<^verbatim>\<open>packaging\<close> library, \<^verbatim>\<open>ValueError\<close> of Python's \<^verbatim>\<open>int\<close>, and the \<^verbatim>\<open>OSError\<close> (such
  as \<^verbatim>\<open>PermissionError\<close>) of a file system call. A function that can raise returns
  \<open>Inl\<close> of the exception or \<open>Inr\<close> of its value.\<close>

datatype error = InvalidVersion | ValueError | OSError

text \<open>The value of a string of ASCII digits.\<close>

definition int_of_digits :: "string \<Rightarrow> nat" where
  "int_of_digits ds = foldl (\<lambda>n c. 10 * n + (of_char c - 48)) 0 ds"

text \<open>\<^verbatim>\<open>int(s)\<close> on a string of ASCII digits. Python (3.11, and the security releases of
  3.7 to 3.10) raises \<^verbatim>\<open>ValueError\<close> when the string has more digits than
  \<^verbatim>\<open>sys.int_max_str_digits\<close>, 4300 unless it is reconfigured; leading zeros count.\<close>

definition int_max_str_digits :: nat where
  "int_max_str_digits = 4300"

definition py_int :: "string \<Rightarrow> error + nat" where
  "py_int ds = (if length ds > int_max_str_digits then Inl ValueError
                else Inr (int_of_digits ds))"

text \<open>A tuple built from a generator: the first exception raised by an element leaves
  the construction.\<close>

fun sequence :: "(error + 'a) list \<Rightarrow> error + 'a list" where
  "sequence [] = Inr []"
| "sequence (r # rs) =
     (case r of
        Inl e \<Rightarrow> Inl e
      | Inr x \<Rightarrow> (case sequence rs of Inl e \<Rightarrow> Inl e | Inr xs \<Rightarrow> Inr (x # xs)))"

text \<open>\<^verbatim>\<open>re.split\<close> on a one-character class: the pieces between the separators.\<close>

primrec split_on :: "(char \<Rightarrow> bool) \<Rightarrow> string \<Rightarrow> string list" where
  "split_on P [] = [[]]"
| "split_on P (c # s) =
     (if P c then [] # split_on P s
      else (case split_on P s of g # gs \<Rightarrow> (c # g) # gs | [] \<Rightarrow> [[c]]))"

datatype ordering = LT | EQ | GT

definition cmp_nat :: "nat \<Rightarrow> nat \<Rightarrow> ordering" where
  "cmp_nat a b = (if a < b then LT else if a = b then EQ else GT)"

text \<open>Python's comparison of tuples (and of strings, by code point): the first differing
  position decides, and a proper prefix is smaller.\<close>

fun cmp_list :: "('a \<Rightarrow> 'a \<Rightarrow> ordering) \<Rightarrow> 'a list \<Rightarrow> 'a list \<Rightarrow> ordering" where
  "cmp_list c [] [] = EQ"
| "cmp_list c [] (y # ys) = LT"
| "cmp_list c (x # xs) [] = GT"
| "cmp_list c (x # xs) (y # ys) = (case c x y of EQ \<Rightarrow> cmp_list c xs ys | r \<Rightarrow> r)"

definition cmp_str :: "string \<Rightarrow> string \<Rightarrow> ordering" where
  "cmp_str = cmp_list (\<lambda>a b. cmp_nat (of_char a) (of_char b))"

definition cmp_pair :: "('a \<Rightarrow> 'a \<Rightarrow> ordering) \<Rightarrow> ('b \<Rightarrow> 'b \<Rightarrow> ordering) \<Rightarrow> 'a \<times> 'b \<Rightarrow> 'a \<times> 'b \<Rightarrow> ordering" where
  "cmp_pair ca cb p q = (case ca (fst p) (fst q) of EQ \<Rightarrow> cb (snd p) (snd q) | r \<Rightarrow> r)"

text \<open>The library's \<^verbatim>\<open>NegativeInfinity\<close> and \<^verbatim>\<open>Infinity\<close> objects, below and above every
  other value.\<close>

datatype 'a ext = NegativeInfinity | Fin 'a | Infinity

fun cmp_ext :: "('a \<Rightarrow> 'a \<Rightarrow> ordering) \<Rightarrow> 'a ext \<Rightarrow> 'a ext \<Rightarrow> ordering" where
  "cmp_ext c NegativeInfinity NegativeInfinity = EQ"
| "cmp_ext c NegativeInfinity _ = LT"
| "cmp_ext c _ NegativeInfinity = GT"
| "cmp_ext c Infinity Infinity = EQ"
| "cmp_ext c Infinity _ = GT"
| "cmp_ext c _ Infinity = LT"
| "cmp_ext c (Fin a) (Fin b) = c a b"

subsection \<open>The version parser of the \<^verbatim>\<open>packaging\<close> library\<close>

text \<open>
  \<^verbatim>\<open>is_version_compatible\<close> calls \<^verbatim>\<open>packaging.version.parse\<close>, a third-party library the
  script imports. It is modelled here after the library's published source
  (\<^verbatim>\<open>packaging/version.py\<close>, releases 22 and later, where \<^verbatim>\<open>parse(v)\<close> is \<^verbatim>\<open>Version(v)\<close> and
  raises \<^verbatim>\<open>InvalidVersion\<close> when the pattern below does not match the whole string):
  \<^verbatim>\<open>
    ^\s* v?
      (?:(?P<epoch>[0-9]+)!)?
      (?P<release>[0-9]+(?:\.[0-9]+)*)
      (?P<pre> [-_\.]? (?P<pre_l>alpha|a|beta|b|preview|pre|c|rc) [-_\.]? (?P<pre_n>[0-9]+)? )?
      (?P<post> (?:-(?P<post_n1>[0-9]+))
              | (?: [-_\.]? (?P<post_l>post|rev|r) [-_\.]? (?P<post_n2>[0-9]+)? ) )?
      (?P<dev> [-_\.]? (?P<dev_l>dev) [-_\.]? (?P<dev_n>[0-9]+)? )?
      (?:\+(?P<local>[a-z0-9]+(?:[-_\.][a-z0-9]+)*))?
    \s*$                                   (re.VERBOSE | re.IGNORECASE)
  \<close>
  Every element of the pattern is followed by characters it cannot itself match (a digit
  run by a non-digit, a separator by a letter), so the greedy first choice of the
  backtracking matcher is its only choice, and the functions below read the string from
  left to right, one element of the pattern each. Once the pattern has matched, the
  constructor converts every digit run with \<^verbatim>\<open>int\<close>, which raises \<^verbatim>\<open>ValueError\<close> on a run
  beyond Python's limit; \<^verbatim>\<open>InvalidVersion\<close> is a subclass of \<^verbatim>\<open>ValueError\<close>, not the
  reverse.
\<close>

record Version =
  epoch :: nat
  release :: "nat list"
  pre :: "(string \<times> nat) option"
  post :: "(string \<times> nat) option"
  dev :: "(string \<times> nat) option"
  local :: "(nat + string) list option"

text \<open>\<^verbatim>\<open>(?:\.[0-9]+)*\<close>: the text matched and the text left.\<close>

function dot_groups :: "string \<Rightarrow> string \<times> string" where
  "dot_groups [] = ([], [])"
| "dot_groups (c # r) =
     (if c = CHR ''.'' \<and> takeWhile is_digit r \<noteq> []
      then (let (m, rest) = dot_groups (dropWhile is_digit r)
            in (c # takeWhile is_digit r @ m, rest))
      else ([], c # r))"
  by pat_completeness auto
termination
  by (relation "measure length") (auto simp: le_imp_less_Suc length_dropWhile_le)

text \<open>\<^verbatim>\<open>[0-9]+(?:\.[0-9]+)*\<close>; \<open>None\<close> when no digit starts the string.\<close>

definition release_span :: "string \<Rightarrow> (string \<times> string) option" where
  "release_span s =
     (if takeWhile is_digit s = [] then None
      else (let (m, rest) = dot_groups (dropWhile is_digit s)
            in Some (takeWhile is_digit s @ m, rest)))"

text \<open>\<^verbatim>\<open>(?:[-_\.][a-z0-9]+)*\<close> and \<^verbatim>\<open>[a-z0-9]+(?:[-_\.][a-z0-9]+)*\<close>, likewise.\<close>

function sep_groups :: "string \<Rightarrow> string \<times> string" where
  "sep_groups [] = ([], [])"
| "sep_groups (c # r) =
     (if is_sep c \<and> takeWhile is_alnum r \<noteq> []
      then (let (m, rest) = sep_groups (dropWhile is_alnum r)
            in (c # takeWhile is_alnum r @ m, rest))
      else ([], c # r))"
  by pat_completeness auto
termination
  by (relation "measure length") (auto simp: le_imp_less_Suc length_dropWhile_le)

definition local_span :: "string \<Rightarrow> (string \<times> string) option" where
  "local_span s =
     (if takeWhile is_alnum s = [] then None
      else (let (m, rest) = sep_groups (dropWhile is_alnum s)
            in Some (takeWhile is_alnum s @ m, rest)))"

text \<open>A literal word of the pattern, matched without regard to case.\<close>

definition match_word :: "string \<Rightarrow> string \<Rightarrow> string option" where
  "match_word w s =
     (if map lower (take (length w) s) = w then Some (drop (length w) s) else None)"

text \<open>An alternation of words: the first alternative that matches.\<close>

fun match_words :: "string list \<Rightarrow> string \<Rightarrow> (string \<times> string) option" where
  "match_words [] s = None"
| "match_words (w # ws) s =
     (case match_word w s of Some rest \<Rightarrow> Some (w, rest) | None \<Rightarrow> match_words ws s)"

text \<open>\<^verbatim>\<open>[-_\.]?\<close> and \<^verbatim>\<open>([0-9]+)?\<close>.\<close>

definition opt_sep :: "string \<Rightarrow> string" where
  "opt_sep s = (case s of c # r \<Rightarrow> if is_sep c then r else s | [] \<Rightarrow> [])"

definition opt_number :: "string \<Rightarrow> string option \<times> string" where
  "opt_number s =
     (if takeWhile is_digit s = [] then (None, s)
      else (Some (takeWhile is_digit s), dropWhile is_digit s))"

text \<open>\<^verbatim>\<open>[-_\.]? (word|...) [-_\.]? ([0-9]+)?\<close>: the shape of the pre, post and dev groups.
  The result is the word, the number if any, and the text left.\<close>

definition letter_group :: "string list \<Rightarrow> string \<Rightarrow> (string \<times> string option \<times> string) option" where
  "letter_group ws s =
     (case match_words ws (opt_sep s) of
        None \<Rightarrow> None
      | Some (w, r) \<Rightarrow> (let (n, rest) = opt_number (opt_sep r) in Some (w, n, rest)))"

text \<open>\<^verbatim>\<open>_parse_letter_version(letter, number)\<close>, with \<open>None\<close> for an unmatched group; the
  number goes through \<^verbatim>\<open>int\<close>.\<close>

definition parse_letter_version ::
  "string option \<Rightarrow> string option \<Rightarrow> error + (string \<times> nat) option" where
  "parse_letter_version letter number =
     (case letter of
        Some l \<Rightarrow>
          (case (case number of None \<Rightarrow> Inr 0 | Some n \<Rightarrow> py_int n) of
             Inl e \<Rightarrow> Inl e
           | Inr k \<Rightarrow>
               Inr (Some (if l = ''alpha'' then ''a''
                          else if l = ''beta'' then ''b''
                          else if l \<in> set [''c'', ''pre'', ''preview''] then ''rc''
                          else if l \<in> set [''rev'', ''r''] then ''post''
                          else l,
                          k)))
      | None \<Rightarrow>
          (case number of
             Some n \<Rightarrow>
               if n \<noteq> []
               then (case py_int n of Inl e \<Rightarrow> Inl e | Inr k \<Rightarrow> Inr (Some (''post'', k)))
               else Inr None
           | None \<Rightarrow> Inr None))"

text \<open>\<^verbatim>\<open>_parse_local_version\<close>: the parts between separators, numbers as integers (through
  \<^verbatim>\<open>int\<close>) and the others in lower case.\<close>

definition parse_local_version :: "string \<Rightarrow> error + (nat + string) list" where
  "parse_local_version l =
     sequence
       (map (\<lambda>part. if part \<noteq> [] \<and> list_all is_digit part
                    then (case py_int part of Inl e \<Rightarrow> Inl e | Inr k \<Rightarrow> Inr (Inl k))
                    else Inr (Inr (map lower part)))
            (split_on is_sep l))"

text \<open>The \<^verbatim>\<open>post\<close> group: \<^verbatim>\<open>-N\<close> (an implicit post-release), or else the lettered form.\<close>

definition post_group :: "string \<Rightarrow> (string option \<times> string option \<times> string) option" where
  "post_group s =
     (case s of
        c # r \<Rightarrow>
          if c = CHR ''-'' \<and> takeWhile is_digit r \<noteq> []
          then Some (None, Some (takeWhile is_digit r), dropWhile is_digit r)
          else map_option (\<lambda>(w, n, rest). (Some w, n, rest)) (letter_group [''post'', ''rev'', ''r''] s)
      | [] \<Rightarrow> None)"

text \<open>\<^verbatim>\<open>Version.__init__\<close>: match the pattern, raising \<^verbatim>\<open>InvalidVersion\<close> when it does not
  match, then build the fields from the groups in the order of the source: epoch, release,
  pre, post, dev, local.\<close>

definition parse :: "string \<Rightarrow> error + Version" where
  "parse s =
     (let s1 = dropWhile is_space s;
          s2 = (case s1 of c # r \<Rightarrow> if lower c = CHR ''v'' then r else s1 | [] \<Rightarrow> []);
          (epoch_g, s3) =
            (if takeWhile is_digit s2 \<noteq> [] \<and> take 1 (dropWhile is_digit s2) = ''!''
             then (Some (takeWhile is_digit s2), drop 1 (dropWhile is_digit s2))
             else (None, s2))
      in case release_span s3 of
           None \<Rightarrow> Inl InvalidVersion
         | Some (release_g, s4) \<Rightarrow>
             let (pre_l, pre_n, s5) =
                   (case letter_group [''alpha'', ''a'', ''beta'', ''b'', ''preview'', ''pre'', ''c'', ''rc''] s4 of
                      Some (w, n, rest) \<Rightarrow> (Some w, n, rest) | None \<Rightarrow> (None, None, s4));
                 (post_l, post_n, s6) =
                   (case post_group s5 of Some g \<Rightarrow> g | None \<Rightarrow> (None, None, s5));
                 (dev_l, dev_n, s7) =
                   (case letter_group [''dev''] s6 of
                      Some (w, n, rest) \<Rightarrow> (Some w, n, rest) | None \<Rightarrow> (None, None, s6));
                 (local_g, s8) =
                   (if take 1 s7 = ''+''
                    then (case local_span (drop 1 s7) of
                            Some (l, rest) \<Rightarrow> (Some l, rest) | None \<Rightarrow> (None, s7))
                    else (None, s7))
             in if dropWhile is_space s8 = []
                then
                  (case (case epoch_g of Some e \<Rightarrow> py_int e | None \<Rightarrow> Inr 0) of
                     Inl x \<Rightarrow> Inl x
                   | Inr epoch_v \<Rightarrow>
                  (case sequence (map py_int (split_on (\<lambda>c. c = CHR ''.'') release_g)) of
                     Inl x \<Rightarrow> Inl x
                   | Inr release_v \<Rightarrow>
                  (case parse_letter_version pre_l pre_n of
                     Inl x \<Rightarrow> Inl x
                   | Inr pre_v \<Rightarrow>
                  (case parse_letter_version post_l post_n of
                     Inl x \<Rightarrow> Inl x
                   | Inr post_v \<Rightarrow>
                  (case parse_letter_version dev_l dev_n of
                     Inl x \<Rightarrow> Inl x
                   | Inr dev_v \<Rightarrow>
                  (case (case local_g of
                           None \<Rightarrow> Inr None
                         | Some l \<Rightarrow> (case parse_local_version l of
                                        Inl x \<Rightarrow> Inl x | Inr v \<Rightarrow> Inr (Some v))) of
                     Inl x \<Rightarrow> Inl x
                   | Inr local_v \<Rightarrow>
                       Inr \<lparr> epoch = epoch_v, release = release_v, pre = pre_v,
                             post = post_v, dev = dev_v, local = local_v \<rparr>))))))
                else Inl InvalidVersion)"

text \<open>\<^verbatim>\<open>_cmpkey\<close>: the sorting key. Trailing zeros of the release are dropped.\<close>

type_synonym cmpkey =
  "nat \<times> nat list \<times> (string \<times> nat) ext \<times> (string \<times> nat) ext \<times> (string \<times> nat) ext
     \<times> (nat ext \<times> string) list ext"

definition cmpkey :: "Version \<Rightarrow> cmpkey" where
  "cmpkey v =
     (epoch v,
      rev (dropWhile (\<lambda>x. x = 0) (rev (release v))),
      (if pre v = None \<and> post v = None \<and> dev v \<noteq> None then NegativeInfinity
       else case pre v of None \<Rightarrow> Infinity | Some p \<Rightarrow> Fin p),
      (case post v of None \<Rightarrow> NegativeInfinity | Some p \<Rightarrow> Fin p),
      (case dev v of None \<Rightarrow> Infinity | Some d \<Rightarrow> Fin d),
      (case local v of
         None \<Rightarrow> NegativeInfinity
       | Some l \<Rightarrow> Fin (map (\<lambda>i. case i of Inl n \<Rightarrow> (Fin n, []) | Inr t \<Rightarrow> (NegativeInfinity, t)) l)))"

text \<open>Python's comparison of two keys: component by component, from the left.\<close>

definition cmp_key :: "cmpkey \<Rightarrow> cmpkey \<Rightarrow> ordering" where
  "cmp_key =
     cmp_pair cmp_nat
       (cmp_pair (cmp_list cmp_nat)
          (cmp_pair (cmp_ext (cmp_pair cmp_str cmp_nat))
             (cmp_pair (cmp_ext (cmp_pair cmp_str cmp_nat))
                (cmp_pair (cmp_ext (cmp_pair cmp_str cmp_nat))
                   (cmp_ext (cmp_list (cmp_pair (cmp_ext cmp_nat) cmp_str)))))))"

text \<open>\<^verbatim>\<open>Version.__ge__\<close>.\<close>

definition version_ge :: "Version \<Rightarrow> Version \<Rightarrow> bool" where
  "version_ge v w \<longleftrightarrow> cmp_key (cmpkey v) (cmpkey w) \<noteq> LT"

subsection \<open>The comparator of the script\<close>

text \<open>What the script prints, one constructor for each message it can print in the
  functions modelled here; \<open>level_of\<close> gives the printing function used.\<close>

datatype event =
    Searching
  | WillVerify
  | CheckingUpTo nat nat
  | NoVersionsAvailable
  | CheckingVersion string string
  | VersionComparisonFailed string
  | Downloading string
  | InvalidVsixFile
  | PackageJsonNotFound
  | InvalidPackageJson
  | ExtractFailed
  | RequiresUnsupported string
  | UnsupportedApi string
  | AndMore nat
  | FoundCompatible string
  | EngineRequirement string
  | AllSupported nat
  | CheckedSummary nat nat nat nat
  | FailedToCheck string
  | NoCompatibleFound
  | CheckedTotal nat
  | WerePrerelease nat
  | HadIncompatibleEngine nat
  | HadUnsupportedApi nat

datatype level = Info | Success | Warning | Error

fun level_of :: "event \<Rightarrow> level" where
  "level_of (VersionComparisonFailed _) = Warning"
| "level_of (RequiresUnsupported _) = Warning"
| "level_of (FailedToCheck _) = Warning"
| "level_of (FoundCompatible _) = Success"
| "level_of NoVersionsAvailable = Error"
| "level_of InvalidVsixFile = Error"
| "level_of PackageJsonNotFound = Error"
| "level_of InvalidPackageJson = Error"
| "level_of ExtractFailed = Error"
| "level_of NoCompatibleFound = Error"
| "level_of _ = Info"

text \<open>\<^verbatim>\<open>engine_str.lstrip('^>=~')\<close>: leading characters of that set are removed.\<close>

definition parse_engine_requirement :: "string \<Rightarrow> string" where
  "parse_engine_requirement engine_str = dropWhile (\<lambda>c. c \<in> set ''^>=~'') engine_str"

text \<open>\<^verbatim>\<open>is_version_compatible\<close>: the answer and what was printed, or the exception that
  leaves the function. The host version is parsed first. The \<^verbatim>\<open>except\<close> clause names
  \<^verbatim>\<open>InvalidVersion\<close> only, so that exception from either \<^verbatim>\<open>parse\<close> is caught and any other
  is not.\<close>

definition is_version_compatible :: "string \<Rightarrow> string \<Rightarrow> error + bool \<times> event list" where
  "is_version_compatible vscode_version engine_requirement =
     (case parse vscode_version of
        Inl InvalidVersion \<Rightarrow> Inr (False, [VersionComparisonFailed vscode_version])
      | Inl e \<Rightarrow> Inl e
      | Inr vscode_ver \<Rightarrow>
          (case parse (parse_engine_requirement engine_requirement) of
             Inl InvalidVersion \<Rightarrow>
               Inr (False, [VersionComparisonFailed (parse_engine_requirement engine_requirement)])
           | Inl e \<Rightarrow> Inl e
           | Inr required_ver \<Rightarrow> Inr (version_ge vscode_ver required_ver, [])))"

subsection \<open>The comparison the specification describes\<close>

text \<open>
  The specification words the comparator as: read both sides as dotted-integer versions,
  ignoring any trailing non-numeric qualifier, and compare the components as integers from
  the left, a missing trailing component counting as 0. These definitions follow those
  words; they are compared with \<open>is_version_compatible\<close> below.
\<close>

definition digit_group :: "string \<Rightarrow> bool" where
  "digit_group g \<longleftrightarrow> g \<noteq> [] \<and> list_all is_digit g"

definition dotted_integers :: "string \<Rightarrow> bool" where
  "dotted_integers s \<longleftrightarrow> list_all digit_group (split_on (\<lambda>c. c = CHR ''.'') s)"

definition components :: "string \<Rightarrow> nat list" where
  "components s = map int_of_digits (split_on (\<lambda>c. c = CHR ''.'') s)"

definition numeric_part :: "string \<Rightarrow> string" where
  "numeric_part s = takeWhile (\<lambda>c. is_digit c \<or> c = CHR ''.'') s"

definition pad :: "nat \<Rightarrow> nat list \<Rightarrow> nat list" where
  "pad n xs = xs @ replicate (n - length xs) 0"

definition padded_ge :: "nat list \<Rightarrow> nat list \<Rightarrow> bool" where
  "padded_ge xs ys \<longleftrightarrow>
     cmp_list cmp_nat (pad (max (length xs) (length ys)) xs)
                      (pad (max (length xs) (length ys)) ys) \<noteq> LT"

definition padded_gt :: "nat list \<Rightarrow> nat list \<Rightarrow> bool" where
  "padded_gt xs ys \<longleftrightarrow>
     cmp_list cmp_nat (pad (max (length xs) (length ys)) xs)
                      (pad (max (length xs) (length ys)) ys) = GT"

definition spec_is_compatible :: "string \<Rightarrow> string \<Rightarrow> bool" where
  "spec_is_compatible host_version requirement_string =
     padded_ge (components (numeric_part host_version))
               (components (numeric_part (parse_engine_requirement requirement_string)))"

text \<open>Auxiliary notions for the proofs: the release with its trailing zeros dropped, as
  in the sorting key; the padded comparison as a recursion; and the texts that end a
  release segment.\<close>

definition strip_zeros :: "nat list \<Rightarrow> nat list" where
  "strip_zeros xs = rev (dropWhile (\<lambda>x. x = 0) (rev xs))"

fun padded_cmp :: "nat list \<Rightarrow> nat list \<Rightarrow> ordering" where
  "padded_cmp [] [] = EQ"
| "padded_cmp [] (y # ys) = (if y = 0 then padded_cmp [] ys else LT)"
| "padded_cmp (x # xs) [] = (if x = 0 then padded_cmp xs [] else GT)"
| "padded_cmp (x # xs) (y # ys) = (case cmp_nat x y of EQ \<Rightarrow> padded_cmp xs ys | r \<Rightarrow> r)"

definition stops :: "string \<Rightarrow> bool" where
  "stops t \<longleftrightarrow> (case t of [] \<Rightarrow> True | c # _ \<Rightarrow> \<not> is_digit c \<and> c \<noteq> CHR ''.'')"

text \<open>A dotted text none of whose components is too long for \<^verbatim>\<open>int\<close>.\<close>

definition within_int_limit :: "string \<Rightarrow> bool" where
  "within_int_limit s \<longleftrightarrow>
     list_all (\<lambda>g. length g \<le> int_max_str_digits) (split_on (\<lambda>c. c = CHR ''.'') s)"

section \<open>Capability sources\<close>

subsection \<open>The runtime proposals file\<close>

text \<open>
  \<^verbatim>\<open>get_runtime_api_proposals\<close> collects the names with
  \<^verbatim>\<open>re.findall(r'["\']?([a-zA-Z][a-zA-Z0-9_]*)["\']?\s*:\s*\{\s*version\s*:\s*\d', content)\<close>.
  As in the version pattern, each element is followed by characters it cannot match itself,
  so one attempt at a position is read from left to right. \<open>match_at\<close> is that attempt: the
  name captured and the text after the match.
\<close>

definition is_letter :: "char \<Rightarrow> bool" where
  "is_letter c \<longleftrightarrow> c \<in> set ''abcdefghijklmnopqrstuvwxyzABCDEFGHIJKLMNOPQRSTUVWXYZ''"

definition is_ident :: "char \<Rightarrow> bool" where
  "is_ident c \<longleftrightarrow> is_letter c \<or> is_digit c \<or> c = CHR ''_''"

definition skip_quote :: "string \<Rightarrow> string" where
  "skip_quote s = (case s of c # r \<Rightarrow> if c = CHR 0x22 \<or> c = CHR 0x27 then r else s | [] \<Rightarrow> [])"

definition expect :: "char \<Rightarrow> string \<Rightarrow> string option" where
  "expect c s = (case s of d # r \<Rightarrow> if d = c then Some r else None | [] \<Rightarrow> None)"

definition expect_word :: "string \<Rightarrow> string \<Rightarrow> string option" where
  "expect_word w s = (if take (length w) s = w then Some (drop (length w) s) else None)"

definition match_at :: "string \<Rightarrow> (string \<times> string) option" where
  "match_at s =
     (let s1 = skip_quote s in
      if takeWhile is_letter (take 1 s1) = [] then None
      else
        case expect CHR '':'' (dropWhile is_space (skip_quote (dropWhile is_ident s1))) of
          None \<Rightarrow> None
        | Some s2 \<Rightarrow>
        (case expect CHR 0x7B (dropWhile is_space s2) of
          None \<Rightarrow> None
        | Some s3 \<Rightarrow>
        (case expect_word ''version'' (dropWhile is_space s3) of
          None \<Rightarrow> None
        | Some s4 \<Rightarrow>
        (case expect CHR '':'' (dropWhile is_space s4) of
          None \<Rightarrow> None
        | Some s5 \<Rightarrow>
        (case dropWhile is_space s5 of
           d # rest \<Rightarrow> if is_digit d then Some (takeWhile is_ident s1, rest) else None
         | [] \<Rightarrow> None)))))"

text \<open>\<^verbatim>\<open>re.findall\<close>: the matches from left to right, each search starting where the last
  match ended, or one character further when there is no match at a position.\<close>

function findall :: "string \<Rightarrow> string list" where
  "findall [] = []"
| "findall (c # r) =
     (case match_at (c # r) of
        Some (name, rest) \<Rightarrow> name # findall rest
      | None \<Rightarrow> findall r)"
  by pat_completeness auto
termination
proof (relation "measure length")
  show "wf (measure length)" by simp
next
  fix c :: char and r :: string and x2 :: "string \<times> string" and name rest :: string
  assume m: "match_at (c # r) = Some x2" and x: "(name, rest) = x2"
  have e: "expect a t = Some u \<Longrightarrow> length u < length t" for a t u
    by (cases t) (auto simp: expect_def split: if_splits)
  have w: "expect_word v t = Some u \<Longrightarrow> length u \<le> length t" for v t u
    by (auto simp: expect_word_def split: if_splits)
  have d: "length (dropWhile P t) \<le> length t" for P and t :: string
    by (rule length_dropWhile_le)
  have q: "length (skip_quote t) \<le> length t" for t
    by (cases t) (auto simp: skip_quote_def)
  from m x obtain s2 s3 s4 s5 dg where
    s2: "expect CHR '':'' (dropWhile is_space (skip_quote (dropWhile is_ident (skip_quote (c # r))))) = Some s2"
    and s3: "expect CHR 0x7B (dropWhile is_space s2) = Some s3"
    and s4: "expect_word ''version'' (dropWhile is_space s3) = Some s4"
    and s5: "expect CHR '':'' (dropWhile is_space s4) = Some s5"
    and r: "dropWhile is_space s5 = dg # rest"
    by (auto simp: match_at_def Let_def split: if_splits option.splits list.splits)
  have "length rest < length s5"
    using d[of is_space s5] r by simp
  also have "\<dots> < length s4" using e[OF s5] d[of is_space s4] by simp
  also have "\<dots> \<le> length s3" using w[OF s4] d[of is_space s3] by simp
  also have "\<dots> < length s2" using e[OF s3] d[of is_space s2] by simp
  also have "\<dots> < length (c # r)"
    using e[OF s2]
      d[of is_space "skip_quote (dropWhile is_ident (skip_quote (c # r)))"]
      q[of "dropWhile is_ident (skip_quote (c # r))"]
      d[of is_ident "skip_quote (c # r)"] q[of "c # r"]
    by simp
  finally show "(rest, c # r) \<in> measure length" by simp
next
  fix c :: char and r :: string
  show "(r, c # r) \<in> measure length" by simp
qed

text \<open>The set of names the reader keeps: the matches, without the word \<^verbatim>\<open>version\<close>.\<close>

definition matched_names :: "string \<Rightarrow> string set" where
  "matched_names content = set (findall content) - {''version''}"

text \<open>
  What the resolver sees of the file system: what \<^verbatim>\<open>Path.exists\<close> answers, what
  \<^verbatim>\<open>read_text\<close> returns (\<open>None\<close> when it raises), and what \<^verbatim>\<open>json.load\<close> returns on the
  opened file (\<open>None\<close> when opening or parsing raises). The two readers are only called
  inside \<^verbatim>\<open>try\<close> blocks that catch every exception, so which exception they raise does
  not matter. \<^verbatim>\<open>Path.exists\<close> is called outside them: it answers \<open>False\<close> when \<^verbatim>\<open>stat\<close>
  fails because the path is not there (\<^verbatim>\<open>ENOENT\<close>, \<^verbatim>\<open>ENOTDIR\<close>, \<^verbatim>\<open>EBADF\<close>, \<^verbatim>\<open>ELOOP\<close>) and
  raises the \<^verbatim>\<open>OSError\<close> of \<^verbatim>\<open>stat\<close> otherwise, as it does with \<^verbatim>\<open>PermissionError\<close> when a
  directory on the way may not be searched.
\<close>

datatype json = JNull | JBool bool | JNum int | JStr string | JArr "json list"
  | JObj "(string \<times> json) list"

record filesystem =
  path_exists :: "string \<Rightarrow> error + bool"
  read_text :: "string \<Rightarrow> string option"
  json_load :: "string \<Rightarrow> json option"

definition get_runtime_api_proposals :: "filesystem \<Rightarrow> string \<Rightarrow> string set option" where
  "get_runtime_api_proposals fs proposals_js_path =
     (case read_text fs proposals_js_path of
        None \<Rightarrow> None
      | Some content \<Rightarrow>
          (let proposals = matched_names content
           in if proposals \<noteq> {} then Some proposals else None))"

subsection \<open>Decoded JSON as Python sees it\<close>

text \<open>
  A \<open>JObj\<close> holds the items of the decoded \<^verbatim>\<open>dict\<close>, so its keys are distinct; \<open>JNum\<close>
  stands for any JSON number, of which only being zero matters here. \<open>truthy\<close> is Python's
  truth value, \<open>py_len\<close> is \<^verbatim>\<open>len\<close> (\<open>None\<close> for \<^verbatim>\<open>TypeError\<close>), and \<open>iter_strings\<close> is what a
  loop \<^verbatim>\<open>for p in v: p.split('@')\<close> goes through: the elements of a list, the characters
  of a string, the keys of a dict; \<open>None\<close> when \<^verbatim>\<open>v\<close> cannot be iterated or an element is
  not a string, where Python raises \<^verbatim>\<open>TypeError\<close> or \<^verbatim>\<open>AttributeError\<close>.
\<close>

fun truthy :: "json \<Rightarrow> bool" where
  "truthy JNull = False"
| "truthy (JBool b) = b"
| "truthy (JNum n) = (n \<noteq> 0)"
| "truthy (JStr s) = (s \<noteq> [])"
| "truthy (JArr xs) = (xs \<noteq> [])"
| "truthy (JObj kvs) = (kvs \<noteq> [])"

fun py_len :: "json \<Rightarrow> nat option" where
  "py_len (JStr s) = Some (length s)"
| "py_len (JArr xs) = Some (length xs)"
| "py_len (JObj kvs) = Some (length kvs)"
| "py_len _ = None"

fun as_str :: "json \<Rightarrow> string option" where
  "as_str (JStr s) = Some s"
| "as_str _ = None"

fun iter_strings :: "json \<Rightarrow> string list option" where
  "iter_strings (JArr xs) = those (map as_str xs)"
| "iter_strings (JStr s) = Some (map (\<lambda>c. [c]) s)"
| "iter_strings (JObj kvs) = Some (map fst kvs)"
| "iter_strings _ = None"

subsection \<open>The capability set resolver\<close>

text \<open>The first loop of \<^verbatim>\<open>get_supported_api_proposals\<close>, over
  \<^verbatim>\<open>RUNTIME_API_PROPOSALS_PATHS\<close>: the set returned from inside the loop, \<open>None\<close> when the
  loop ends without one, or the exception of \<^verbatim>\<open>runtime_path.exists()\<close>, which no \<^verbatim>\<open>try\<close>
  encloses.\<close>

fun first_runtime_proposals :: "filesystem \<Rightarrow> string list \<Rightarrow> error + string set option" where
  "first_runtime_proposals fs [] = Inr None"
| "first_runtime_proposals fs (runtime_path # rest) =
     (case path_exists fs runtime_path of
        Inl e \<Rightarrow> Inl e
      | Inr True \<Rightarrow>
          (case get_runtime_api_proposals fs runtime_path of
             Some proposals \<Rightarrow>
               if proposals \<noteq> {} then Inr (Some proposals)
               else first_runtime_proposals fs rest
           | None \<Rightarrow> first_runtime_proposals fs rest)
      | Inr False \<Rightarrow> first_runtime_proposals fs rest)"

text \<open>The second loop, over \<^verbatim>\<open>SYSTEM_PRODUCT_JSON_PATHS\<close>: the first path that exists, with
  \<^verbatim>\<open>path.exists()\<close> outside every \<^verbatim>\<open>try\<close> as well.\<close>

fun first_existing :: "filesystem \<Rightarrow> string list \<Rightarrow> error + string option" where
  "first_existing fs [] = Inr None"
| "first_existing fs (path # rest) =
     (case path_exists fs path of
        Inl e \<Rightarrow> Inl e
      | Inr True \<Rightarrow> Inr (Some path)
      | Inr False \<Rightarrow> first_existing fs rest)"

text \<open>The body of the \<^verbatim>\<open>try\<close> on \<^verbatim>\<open>product.json\<close>: the base names of every string listed
  under \<^verbatim>\<open>extensionEnabledApiProposals\<close>. Every exception ends in \<^verbatim>\<open>return set()\<close>.\<close>

definition product_proposals :: "json \<Rightarrow> string set" where
  "product_proposals product_data =
     (case product_data of
        JObj kvs \<Rightarrow>
          (case map_of kvs ''extensionEnabledApiProposals'' of
             None \<Rightarrow> {}
           | Some (JObj enabled_proposals) \<Rightarrow>
               (case those (map (\<lambda>(ext_id, proposals). iter_strings proposals) enabled_proposals) of
                  None \<Rightarrow> {}
                | Some found \<Rightarrow> set (map normalize_api_proposal (concat found)))
           | Some _ \<Rightarrow> {})
      | _ \<Rightarrow> {})"

text \<open>\<^verbatim>\<open>get_supported_api_proposals\<close>: the set returned, or the exception that leaves the
  function. The two path lists are module constants of the script that depend on the
  platform, taken here as arguments.\<close>

definition get_supported_api_proposals ::
  "filesystem \<Rightarrow> string list \<Rightarrow> string list \<Rightarrow> error + string set" where
  "get_supported_api_proposals fs runtime_paths product_json_paths =
     (case first_runtime_proposals fs runtime_paths of
        Inl e \<Rightarrow> Inl e
      | Inr (Some proposals) \<Rightarrow> Inr proposals
      | Inr None \<Rightarrow>
          (case first_existing fs product_json_paths of
             Inl e \<Rightarrow> Inl e
           | Inr None \<Rightarrow> Inr {}
           | Inr (Some system_product_json) \<Rightarrow>
               (case json_load fs system_product_json of
                  None \<Rightarrow> Inr {}
                | Some product_data \<Rightarrow> Inr (product_proposals product_data))))"

subsection \<open>The bundle reader\<close>

text \<open>
  Modelled from the spec: \<^verbatim>\<open>find_proposals_in_bundle_files\<close> is called by the tests but is
  not in the source file; the specification says it applies the same extraction pattern
  to a bundle and accepts the result only when at least 20 distinct names are matched,
  returning \<open>None\<close> otherwise. \<open>None\<close> as input is a bundle that cannot be read.
\<close>

definition NOISE_THRESHOLD :: nat where
  "NOISE_THRESHOLD = 20"

definition bundle_reader :: "string option \<Rightarrow> string set option" where
  "bundle_reader bundle =
     (case bundle of
        None \<Rightarrow> None
      | Some content \<Rightarrow>
          if card (matched_names content) \<ge> NOISE_THRESHOLD
          then Some (matched_names content) else None)"

section \<open>Version selector\<close>

subsection \<open>Reading a package\<close>

text \<open>
  A downloaded package, as \<^verbatim>\<open>extract_api_proposals_from_vsix\<close> meets it: not a zip archive
  at all, or an archive whose members are looked up by name. Reading a member may raise
  \<^verbatim>\<open>BadZipFile\<close> (\<open>Corrupt\<close>) or another exception (\<open>Unreadable\<close>); its bytes may not be
  UTF-8, may not be JSON, or decode to a JSON value.
\<close>

datatype member = Corrupt | Unreadable | NotUtf8 | NotJson | Parsed json

datatype vsix = NotAZip | Zip "string \<rightharpoonup> member"

text \<open>The value returned and what is printed. The manifest is looked for under
  \<^verbatim>\<open>extension/package.json\<close>, then under \<^verbatim>\<open>package.json\<close>; every exception is caught and
  answered with the empty list.\<close>

definition extract_api_proposals_from_vsix :: "vsix \<Rightarrow> json \<times> event list" where
  "extract_api_proposals_from_vsix package =
     (case package of
        NotAZip \<Rightarrow> (JArr [], [InvalidVsixFile])
      | Zip zip_file \<Rightarrow>
          (case (case zip_file ''extension/package.json'' of
                   None \<Rightarrow> zip_file ''package.json''
                 | Some m \<Rightarrow> Some m) of
             None \<Rightarrow> (JArr [], [PackageJsonNotFound])
           | Some Corrupt \<Rightarrow> (JArr [], [InvalidVsixFile])
           | Some Unreadable \<Rightarrow> (JArr [], [ExtractFailed])
           | Some NotUtf8 \<Rightarrow> (JArr [], [ExtractFailed])
           | Some NotJson \<Rightarrow> (JArr [], [InvalidPackageJson])
           | Some (Parsed (JObj package_json)) \<Rightarrow>
               (case map_of package_json ''enabledApiProposals'' of
                  None \<Rightarrow> (JArr [], [])
                | Some api_proposals \<Rightarrow> (api_proposals, []))
           | Some (Parsed _) \<Rightarrow> (JArr [], [ExtractFailed])))"

text \<open>
  The call \<^verbatim>\<open>check_api_compatibility(required_apis, supported_apis)\<close> on a decoded value:
  with an empty supported set the callee returns before it looks at the requirements;
  otherwise it iterates them, and \<open>None\<close> is the exception raised when it cannot.
\<close>

definition check_manifest :: "json \<Rightarrow> string set \<Rightarrow> (bool \<times> string list) option" where
  "check_manifest required_apis supported_apis =
     (if supported_apis = {} then Some (check_api_compatibility [] supported_apis)
      else map_option (\<lambda>required. check_api_compatibility required supported_apis)
             (iter_strings required_apis))"

subsection \<open>The catalog and the scan\<close>

record file_entry =
  assetType :: "string option"
  source :: "string option"

record version_record =
  ver_version :: "string option"
  ver_properties :: "(string \<times> string) list"
  ver_files :: "file_entry list"

record CompatibleVersion =
  version :: string
  engine_requirement :: string
  vsix_url :: string

record scan_state =
  checked_count :: nat
  skipped_prerelease :: nat
  skipped_incompatible_engine :: nat
  skipped_incompatible_api :: nat
  printed :: "event list"

definition MAX_VERSIONS_TO_CHECK :: nat where
  "MAX_VERSIONS_TO_CHECK = 200"

definition say :: "event list \<Rightarrow> scan_state \<Rightarrow> scan_state" where
  "say events st = st\<lparr>printed := printed st @ events\<rparr>"

text \<open>The dict comprehension over \<^verbatim>\<open>ver['properties']\<close>: a later entry with the same key
  replaces an earlier one.\<close>

definition properties_get :: "version_record \<Rightarrow> string \<Rightarrow> string option" where
  "properties_get ver k = map_of (rev (ver_properties ver)) k"

text \<open>The end of the \<^verbatim>\<open>try\<close> block once the requirements are found compatible: the
  success messages, of which \<^verbatim>\<open>len(required_apis)\<close> may raise, and the result.\<close>

definition accept_version ::
  "string \<Rightarrow> string \<Rightarrow> string \<Rightarrow> json \<Rightarrow> scan_state \<Rightarrow> scan_state \<times> CompatibleVersion option" where
  "accept_version ver_str engine url required_apis st =
     (let st1 = say [FoundCompatible ver_str, EngineRequirement engine] st;
          summary = (\<lambda>s. say [CheckedSummary (checked_count s) (skipped_prerelease s)
                                (skipped_incompatible_engine s) (skipped_incompatible_api s)] s);
          result = \<lparr>version = ver_str, engine_requirement = engine, vsix_url = url\<rparr>
      in if truthy required_apis
         then (case py_len required_apis of
                 None \<Rightarrow> (say [FailedToCheck ver_str] st1, None)
               | Some n \<Rightarrow> (summary (say [AllSupported n] st1), Some result))
         else (summary st1, Some result))"

text \<open>The \<^verbatim>\<open>try\<close> block after a successful download. The name of the temporary file is
  taken to be one the file system accepts, so that \<^verbatim>\<open>exists\<close> and \<^verbatim>\<open>unlink\<close> on it succeed,
  here and in the exception handler.\<close>

definition check_downloaded ::
  "string set \<Rightarrow> string \<Rightarrow> string \<Rightarrow> string \<Rightarrow> scan_state \<Rightarrow> vsix
     \<Rightarrow> scan_state \<times> CompatibleVersion option" where
  "check_downloaded supported_apis ver_str engine url st package =
     (let (required_apis, errors) = extract_api_proposals_from_vsix package;
          st1 = say errors st
      in if truthy required_apis
         then (case check_manifest required_apis supported_apis of
                 None \<Rightarrow> (say [FailedToCheck ver_str] st1, None)
               | Some (is_api_compatible, unsupported) \<Rightarrow>
                   if \<not> is_api_compatible
                   then ((say ([RequiresUnsupported ver_str]
                               @ map UnsupportedApi (take 3 unsupported)
                               @ (if length unsupported > 3
                                  then [AndMore (length unsupported - 3)] else [])) st1)
                           \<lparr>skipped_incompatible_api := skipped_incompatible_api st1 + 1\<rparr>,
                         None)
                   else accept_version ver_str engine url required_apis st1)
         else accept_version ver_str engine url required_apis st1)"

text \<open>
  One turn of the loop of \<^verbatim>\<open>find_compatible_version_with_api_check\<close>: the new state, and
  how the turn ends: \<open>Inr None\<close> when the loop goes on, \<open>Inr (Some found)\<close> when the function
  returns here, \<open>Inl e\<close> when the exception \<open>e\<close> leaves the function. The call of
  \<^verbatim>\<open>is_version_compatible\<close> stands before the \<^verbatim>\<open>try\<close>, so what it raises is not caught.
  \<open>download\<close> is the outcome of fetching a URL and writing it to the temporary file: \<open>None\<close>
  when \<^verbatim>\<open>requests.get\<close>, \<^verbatim>\<open>raise_for_status\<close> or the writing raises, the package stored
  otherwise.
\<close>

definition probe_version ::
  "(string \<Rightarrow> vsix option) \<Rightarrow> string \<Rightarrow> string set \<Rightarrow> scan_state \<Rightarrow> version_record
     \<Rightarrow> scan_state \<times> (error + CompatibleVersion option)" where
  "probe_version download target_version supported_apis st0 ver =
     (let st = st0\<lparr>checked_count := checked_count st0 + 1\<rparr>;
          ver_str = (case ver_version ver of Some v \<Rightarrow> v | None \<Rightarrow> ''unknown'')
      in if properties_get ver ''Microsoft.VisualStudio.Code.PreRelease'' = Some ''true''
         then (st\<lparr>skipped_prerelease := skipped_prerelease st + 1\<rparr>, Inr None)
         else
           (case properties_get ver ''Microsoft.VisualStudio.Code.Engine'' of
              None \<Rightarrow> (st, Inr None)
            | Some engine \<Rightarrow>
                if engine = [] then (st, Inr None)
                else
                  (let st1 = (if checked_count st \<le> 10
                              then say [CheckingVersion ver_str engine] st else st)
                   in case is_version_compatible target_version engine of
                      Inl e \<Rightarrow> (st1, Inl e)
                    | Inr (compatible, warnings) \<Rightarrow>
                   (let st2 = say warnings st1
                    in if \<not> compatible
                      then (st2\<lparr>skipped_incompatible_engine :=
                                   skipped_incompatible_engine st2 + 1\<rparr>, Inr None)
                      else
                        (case find (\<lambda>f. assetType f = Some ''Microsoft.VisualStudio.Services.VSIXPackage'')
                                (ver_files ver) of
                           None \<Rightarrow> (st2, Inr None)
                         | Some vsix_file \<Rightarrow>
                             (case source vsix_file of
                                None \<Rightarrow> (st2, Inr None)
                              | Some url \<Rightarrow>
                                  if url = [] then (st2, Inr None)
                                  else
                                    (let st3 = say [Downloading ver_str] st2
                                     in case download url of
                                          None \<Rightarrow> (say [FailedToCheck ver_str] st3, Inr None)
                                        | Some package \<Rightarrow>
                                            apsnd Inr
                                              (check_downloaded supported_apis ver_str engine url
                                                 st3 package))))))))"

text \<open>The loop: it ends at the first version returned, or at the first exception.\<close>

fun scan ::
  "(string \<Rightarrow> vsix option) \<Rightarrow> string \<Rightarrow> string set \<Rightarrow> scan_state \<Rightarrow> version_record list
     \<Rightarrow> scan_state \<times> (error + CompatibleVersion option)" where
  "scan download target_version supported_apis st [] = (st, Inr None)"
| "scan download target_version supported_apis st (ver # rest) =
     (case probe_version download target_version supported_apis st ver of
        (st', Inl e) \<Rightarrow> (st', Inl e)
      | (st', Inr (Some found)) \<Rightarrow> (st', Inr (Some found))
      | (st', Inr None) \<Rightarrow> scan download target_version supported_apis st' rest)"

text \<open>\<^verbatim>\<open>find_compatible_version_with_api_check\<close>: the result, or the exception that leaves
  the function, and everything printed until then. The extension's name and identifier
  only appear in messages and in the name of the temporary file, and are left out.\<close>

definition find_compatible_version_with_api_check ::
  "(string \<Rightarrow> vsix option) \<Rightarrow> version_record list \<Rightarrow> string \<Rightarrow> string set
     \<Rightarrow> (error + CompatibleVersion option) \<times> event list" where
  "find_compatible_version_with_api_check download versions target_version supported_apis =
     (if versions = [] then (Inr None, [Searching, WillVerify, NoVersionsAvailable])
      else
        (let total_to_check = min (length versions) MAX_VERSIONS_TO_CHECK;
             st0 = \<lparr>checked_count = 0, skipped_prerelease = 0, skipped_incompatible_engine = 0,
                    skipped_incompatible_api = 0,
                    printed = [Searching, WillVerify, CheckingUpTo total_to_check (length versions)]\<rparr>;
             (st, result) = scan download target_version supported_apis st0
                              (take MAX_VERSIONS_TO_CHECK versions)
         in case result of
              Inl e \<Rightarrow> (Inl e, printed st)
            | Inr (Some found) \<Rightarrow> (Inr (Some found), printed st)
            | Inr None \<Rightarrow>
                (Inr None, printed st @ [NoCompatibleFound, CheckedTotal (checked_count st),
                                     WerePrerelease (skipped_prerelease st),
                                     HadIncompatibleEngine (skipped_incompatible_engine st),
                                     HadUnsupportedApi (skipped_incompatible_api st)])))"

text \<open>A version record gets as far as the download, which succeeds: it is no
  pre-release, declares an engine requirement the host satisfies (the comparator returns
  \<open>True\<close>, which it only does without a warning), and names a package URL that \<open>download\<close>
  fetches.\<close>

definition reaches_probe ::
  "(string \<Rightarrow> vsix option) \<Rightarrow> string \<Rightarrow> version_record \<Rightarrow> string \<Rightarrow> string \<Rightarrow> vsix \<Rightarrow> bool" where
  "reaches_probe download target_version ver engine url package \<longleftrightarrow>
     properties_get ver ''Microsoft.VisualStudio.Code.PreRelease'' \<noteq> Some ''true''
     \<and> properties_get ver ''Microsoft.VisualStudio.Code.Engine'' = Some engine
     \<and> engine \<noteq> []
     \<and> is_version_compatible target_version engine = Inr (True, [])
     \<and> (\<exists>vsix_file.
           find (\<lambda>f. assetType f = Some ''Microsoft.VisualStudio.Services.VSIXPackage'')
             (ver_files ver) = Some vsix_file
           \<and> source vsix_file = Some url)
     \<and> url \<noteq> []
     \<and> download url = Some package"

subsection \<open>Auxiliary notions for the properties of the scan\<close>

text \<open>The version text of a record, the state in which the download of a record is
  tried, the line that reports the counters, and the packages from which no manifest can
  be read.\<close>

definition ver_name :: "version_record \<Rightarrow> string" where
  "ver_name ver = (case ver_version ver of Some v \<Rightarrow> v | None \<Rightarrow> ''unknown'')"

definition at_download :: "version_record \<Rightarrow> string \<Rightarrow> scan_state \<Rightarrow> scan_state" where
  "at_download ver engine st0 =
     (let st = st0\<lparr>checked_count := checked_count st0 + 1\<rparr>;
          st1 = (if checked_count st \<le> 10
                 then say [CheckingVersion (ver_name ver) engine] st else st)
      in say [Downloading (ver_name ver)] st1)"

definition counters_line :: "scan_state \<Rightarrow> event" where
  "counters_line st = CheckedSummary (checked_count st) (skipped_prerelease st)
                        (skipped_incompatible_engine st) (skipped_incompatible_api st)"

definition extraction_fails :: "vsix \<Rightarrow> bool" where
  "extraction_fails package \<longleftrightarrow>
     (case package of
        NotAZip \<Rightarrow> True
      | Zip zip_file \<Rightarrow>
          (case (case zip_file ''extension/package.json'' of
                   None \<Rightarrow> zip_file ''package.json''
                 | Some m \<Rightarrow> Some m) of
             None \<Rightarrow> True
           | Some (Parsed (JObj package_json)) \<Rightarrow> False
           | Some _ \<Rightarrow> True))"

text \<open>A capability name as the pattern captures it: \<^verbatim>\<open>[a-zA-Z][a-zA-Z0-9_]*\<close>.\<close>

definition capability_name :: "string \<Rightarrow> bool" where
  "capability_name n \<longleftrightarrow> takeWhile is_letter (take 1 n) \<noteq> [] \<and> list_all is_ident n"

section \<open>Example inputs\<close>

text \<open>The path lists of the script on Linux, and concrete catalogs, packages and files
  on which the properties below are exercised.\<close>

definition RUNTIME_API_PROPOSALS_PATHS :: "string list" where
  "RUNTIME_API_PROPOSALS_PATHS =
     [''/usr/share/codium/resources/app/out/vs/workbench/api/common/extensionApiProposals.js'',
      ''/opt/vscodium-bin/resources/app/out/vs/workbench/api/common/extensionApiProposals.js'',
      ''/opt/VSCodium/resources/app/out/vs/workbench/api/common/extensionApiProposals.js'',
      ''/snap/codium/current/usr/share/codium/resources/app/out/vs/workbench/api/common/extensionApiProposals.js'']"

definition SYSTEM_PRODUCT_JSON_PATHS :: "string list" where
  "SYSTEM_PRODUCT_JSON_PATHS =
     [''/usr/share/codium/resources/app/product.json'',
      ''/opt/vscodium-bin/resources/app/product.json'',
      ''/opt/VSCodium/resources/app/product.json'',
      ''/Applications/VSCodium.app/Contents/Resources/app/product.json'',
      ''/snap/codium/current/usr/share/codium/resources/app/product.json'']"

text \<open>An installation where the runtime file exists but declares nothing, and
  \<^verbatim>\<open>product.json\<close> exists but cannot be parsed.\<close>

definition unusable_sources :: filesystem where
  "unusable_sources =
     \<lparr>path_exists = (\<lambda>p. Inr (p = ''/usr/share/codium/resources/app/out/vs/workbench/api/common/extensionApiProposals.js''
                                \<or> p = ''/usr/share/codium/resources/app/product.json'')),
      read_text = (\<lambda>p. Some ''exports.allApiProposals = {};''),
      json_load = (\<lambda>p. None)\<rparr>"

definition stable_record :: "string \<Rightarrow> string \<Rightarrow> file_entry list \<Rightarrow> version_record" where
  "stable_record v engine files =
     \<lparr>ver_version = Some v,
      ver_properties = [(''Microsoft.VisualStudio.Code.Engine'', engine)],
      ver_files = files\<rparr>"

definition vsix_asset :: "string \<Rightarrow> file_entry" where
  "vsix_asset url =
     \<lparr>assetType = Some ''Microsoft.VisualStudio.Services.VSIXPackage'', source = Some url\<rparr>"

definition prerelease_record :: version_record where
  "prerelease_record =
     \<lparr>ver_version = Some ''0.38.0'',
      ver_properties = [(''Microsoft.VisualStudio.Code.Engine'', ''^1.109.0''),
                        (''Microsoft.VisualStudio.Code.PreRelease'', ''true'')],
      ver_files = [vsix_asset ''https://example.invalid/0.38.0.vsix'']\<rparr>"

definition engine_mismatch_record :: version_record where
  "engine_mismatch_record =
     stable_record ''0.37.9'' ''^1.110.0'' [vsix_asset ''https://example.invalid/0.37.9.vsix'']"

definition no_package_record :: version_record where
  "no_package_record =
     stable_record ''0.37.8'' ''^1.109.0-20260124''
       [\<lparr>assetType = Some ''Microsoft.VisualStudio.Services.Content.Details'',
         source = Some ''https://example.invalid/0.37.8.md''\<rparr>]"

definition compatible_record :: version_record where
  "compatible_record =
     stable_record ''0.37.6'' ''^1.109.0'' [vsix_asset ''https://example.invalid/0.37.6.vsix'']"

definition example_package :: vsix where
  "example_package =
     Zip [''extension/package.json'' \<mapsto>
            Parsed (JObj [(''name'', JStr ''copilot-chat''),
                          (''enabledApiProposals'',
                           JArr (map JStr [''chatHooks@6'', ''someUnknownProposal@99'']))])]"

definition example_download :: "string \<Rightarrow> vsix option" where
  "example_download url =
     (if url = ''https://example.invalid/0.37.6.vsix'' then Some example_package else None)"

definition unreadable_package :: vsix where
  "unreadable_package = Zip [''extension/package.json'' \<mapsto> NotJson]"

text \<open>A version text that matches the pattern of the library and is one digit longer than
  \<^verbatim>\<open>int\<close> converts, a requirement that names it, and a record that declares the
  requirement.\<close>

definition long_digit_run :: string where
  "long_digit_run = replicate 4301 CHR ''1''"

definition long_requirement :: string where
  "long_requirement = CHR ''^'' # long_digit_run"

definition long_engine_record :: version_record where
  "long_engine_record =
     stable_record ''0.37.5'' long_requirement [vsix_asset ''https://example.invalid/0.37.5.vsix'']"

text \<open>A host where the installation directory \<^verbatim>\<open>/opt/vscodium-bin\<close> may not be searched by
  the user who runs the script: \<^verbatim>\<open>stat\<close> fails with \<^verbatim>\<open>EACCES\<close> on every path below it, and
  nothing is installed elsewhere.\<close>

definition unsearchable_install :: filesystem where
  "unsearchable_install =
     \<lparr>path_exists = (\<lambda>p. if take 18 p = ''/opt/vscodium-bin/'' then Inl OSError else Inr False),
      read_text = (\<lambda>p. None),
      json_load = (\<lambda>p. None)\<rparr>"

definition small_bundle :: string where
  "small_bundle = ''const x = {foo: {version: 1, proposal: 0}}''"

definition bundle_names :: "string list" where
  "bundle_names =
     [''chatHooks'', ''findFiles2'', ''a1'', ''a2'', ''a3'', ''a4'', ''a5'', ''a6'', ''a7'', ''a8'',
      ''chatProvider'', ''b0'', ''b1'', ''b2'', ''b3'', ''b4'', ''b5'', ''b6'', ''b7'', ''b8'']"

text \<open>A minified table of the twenty names, the first ten bare and the others quoted.\<close>

definition large_bundle :: string where
  "large_bundle =
     ''x={''
     @ concat (map (\<lambda>n. n @ '':{version:1},'') (take 10 bundle_names))
     @ concat (map (\<lambda>n. [CHR 0x22] @ n @ [CHR 0x22] @ '':{version:2},'') (drop 10 bundle_names))
     @ ''};''"

section \<open>Properties of the compatibility gate\<close>

lemma collect_unsupported_filter:
  "collect_unsupported S acc R = acc @ filter (\<lambda>r. normalize_api_proposal r \<notin> S) R"
  by (induction R arbitrary: acc) (simp_all add: Let_def)

lemma normalize_suffix:
  "CHR ''@'' \<notin> set n \<Longrightarrow> normalize_api_proposal (n @ CHR ''@'' # revision) = n"
  by (induction n) (auto simp: normalize_api_proposal_def)

text \<open>
  C1. With an empty supported set the gate is permissive: whatever the requirements, it
  answers \<open>(True, [])\<close>.
\<close>

theorem check_permissive: "check_api_compatibility R {} = (True, [])"
  by (simp add: check_api_compatibility_def)

text \<open>
  C2. With a non-empty supported set, the gate accepts exactly when the base name of every
  requirement (the text before its first \<^verbatim>\<open>@\<close>) is supported; the unsupported list is the
  sub-list of the requirements whose base name is not supported, in input order; and the
  revision after the \<^verbatim>\<open>@\<close> plays no part: a requirement \<open>n@revision\<close> has base name \<open>n\<close>
  for every revision, and two requirement lists with the same base names get the same
  verdict.
\<close>

theorem check_nonempty:
  assumes "S \<noteq> {}"
  shows "(fst (check_api_compatibility R S) \<longleftrightarrow> (\<forall>r \<in> set R. normalize_api_proposal r \<in> S))
    \<and> snd (check_api_compatibility R S) = filter (\<lambda>r. normalize_api_proposal r \<notin> S) R
    \<and> (\<forall>n revision. CHR ''@'' \<notin> set n \<longrightarrow>
          (fst (check_api_compatibility [n @ CHR ''@'' # revision] S) \<longleftrightarrow> n \<in> S))
    \<and> (\<forall>R'. map normalize_api_proposal R = map normalize_api_proposal R' \<longrightarrow>
          fst (check_api_compatibility R S) = fst (check_api_compatibility R' S))"
proof -
  have eq: "check_api_compatibility Q S =
      (filter (\<lambda>r. normalize_api_proposal r \<notin> S) Q = [],
       filter (\<lambda>r. normalize_api_proposal r \<notin> S) Q)" for Q
    using assms by (simp add: check_api_compatibility_def collect_unsupported_filter Let_def)
  have ok: "fst (check_api_compatibility Q S) \<longleftrightarrow> (\<forall>r \<in> set Q. normalize_api_proposal r \<in> S)" for Q
    by (simp add: eq filter_empty_conv)
  have unsup: "snd (check_api_compatibility R S) = filter (\<lambda>r. normalize_api_proposal r \<notin> S) R"
    by (simp add: eq)
  have rev: "fst (check_api_compatibility [n @ CHR ''@'' # revision] S) \<longleftrightarrow> n \<in> S"
    if "CHR ''@'' \<notin> set n" for n revision
    using that by (simp add: ok normalize_suffix)
  have same: "fst (check_api_compatibility R S) = fst (check_api_compatibility R' S)"
    if "map normalize_api_proposal R = map normalize_api_proposal R'" for R'
  proof -
    have "normalize_api_proposal ` set R = normalize_api_proposal ` set R'"
      using that by (metis set_map)
    then have "(\<forall>r \<in> set R. normalize_api_proposal r \<in> S)
        \<longleftrightarrow> (\<forall>r \<in> set R'. normalize_api_proposal r \<in> S)"
      by (metis image_subset_iff)
    then show ?thesis by (simp add: ok)
  qed
  from ok unsup rev same show ?thesis by blast
qed

theorem check_nonempty_witness:
  "{''chatHooks'', ''activeComment''} \<noteq> ({} :: string set)
   \<and> \<not> fst (check_api_compatibility [''chatHooks@6'', ''missingProposal@1'', ''activeComment@1'']
              {''chatHooks'', ''activeComment''})
   \<and> snd (check_api_compatibility [''chatHooks@6'', ''missingProposal@1'', ''activeComment@1'']
              {''chatHooks'', ''activeComment''}) = [''missingProposal@1'']
   \<and> CHR ''@'' \<notin> set ''chatHooks''
   \<and> fst (check_api_compatibility [''chatHooks@999''] {''chatHooks'', ''activeComment''})"
proof -
  have ne: "{''chatHooks'', ''activeComment''} \<noteq> ({} :: string set)" by simp
  have at: "CHR ''@'' \<notin> set ''chatHooks''" by simp
  have nm: "normalize_api_proposal ''chatHooks@6'' = ''chatHooks''"
    "normalize_api_proposal ''missingProposal@1'' = ''missingProposal''"
    "normalize_api_proposal ''activeComment@1'' = ''activeComment''"
    by (simp_all add: normalize_api_proposal_def)
  note inst = check_nonempty[OF ne, of "[''chatHooks@6'', ''missingProposal@1'', ''activeComment@1'']"]
  from inst have 1: "\<not> fst (check_api_compatibility [''chatHooks@6'', ''missingProposal@1'', ''activeComment@1'']
              {''chatHooks'', ''activeComment''})"
    by (simp add: nm)
  from inst have 2: "snd (check_api_compatibility [''chatHooks@6'', ''missingProposal@1'', ''activeComment@1'']
              {''chatHooks'', ''activeComment''}) = [''missingProposal@1'']"
    by (simp add: nm)
  from inst at have "fst (check_api_compatibility [''chatHooks'' @ CHR ''@'' # ''999''] {''chatHooks'', ''activeComment''})
      \<longleftrightarrow> ''chatHooks'' \<in> {''chatHooks'', ''activeComment''}"
    by blast
  then have 3: "fst (check_api_compatibility [''chatHooks@999''] {''chatHooks'', ''activeComment''})"
    by simp
  from ne 1 2 at 3 show ?thesis by blast
qed

section \<open>Properties of the engine version comparator\<close>

lemma split_on_nonempty: "split_on P s \<noteq> []"
  by (induction s) (auto split: list.splits)

lemma split_on_join:
  "split_on (\<lambda>c. c = d) s = g # gs \<Longrightarrow> s = g @ concat (map ((#) d) gs)"
proof (induction s arbitrary: g gs)
  case Nil
  then show ?case by simp
next
  case (Cons c s)
  obtain h hs where sp: "split_on (\<lambda>c. c = d) s = h # hs"
    using split_on_nonempty by (cases "split_on (\<lambda>c. c = d) s") auto
  from Cons.IH[OF sp] have s: "s = h @ concat (map ((#) d) hs)" .
  show ?case
  proof (cases "c = d")
    case True
    with Cons.prems sp have "g = []" "gs = h # hs" by simp_all
    with s True show ?thesis by simp
  next
    case False
    with Cons.prems sp have "g = c # h" "gs = hs" by simp_all
    with s show ?thesis by simp
  qed
qed

lemma not_digit_dot: "\<not> is_digit CHR ''.''"
  by (simp add: is_digit_def)

lemma takeWhile_group:
  "list_all is_digit g \<Longrightarrow> takeWhile is_digit (g @ concat (map ((#) CHR ''.'') gs)) = g"
  by (cases gs) (auto simp: list_all_iff not_digit_dot takeWhile_append2 intro: takeWhile_eq_all_conv[THEN iffD2])

lemma dropWhile_group:
  "list_all is_digit g \<Longrightarrow> dropWhile is_digit (g @ concat (map ((#) CHR ''.'') gs)) = concat (map ((#) CHR ''.'') gs)"
  by (cases gs) (auto simp: list_all_iff not_digit_dot dropWhile_append2)

lemma take1_dots: "take 1 (concat (map ((#) CHR ''.'') gs)) \<noteq> ''!''"
  by (cases gs) auto

lemma dot_groups_dotted:
  "list_all digit_group gs \<Longrightarrow>
   dot_groups (concat (map ((#) CHR ''.'') gs)) = (concat (map ((#) CHR ''.'') gs), [])"
  by (induction gs) (auto simp: digit_group_def takeWhile_group dropWhile_group)

lemma release_span_join:
  assumes "digit_group g" "list_all digit_group gs"
  shows "release_span (g @ concat (map ((#) CHR ''.'') gs)) = Some (g @ concat (map ((#) CHR ''.'') gs), [])"
proof -
  from assms(1) have gd: "list_all is_digit g" and gne: "g \<noteq> []" by (simp_all add: digit_group_def)
  show ?thesis
    by (simp add: release_span_def takeWhile_group[OF gd] dropWhile_group[OF gd] dot_groups_dotted[OF assms(2)] gne)
qed

lemma release_span_dotted:
  assumes "dotted_integers s"
  shows "release_span s = Some (s, [])"
proof -
  obtain g gs where sp: "split_on (\<lambda>c. c = CHR ''.'') s = g # gs"
    using split_on_nonempty by (cases "split_on (\<lambda>c. c = CHR ''.'') s") auto
  then have s: "s = g @ concat (map ((#) CHR ''.'') gs)" by (rule split_on_join)
  from assms sp have g: "digit_group g" and gs: "list_all digit_group gs"
    by (simp_all add: dotted_integers_def)
  from release_span_join[OF g gs] s show ?thesis by simp
qed

lemma dotted_first_digit:
  assumes "dotted_integers s"
  shows "\<exists>c r. s = c # r \<and> is_digit c"
proof -
  obtain g gs where sp: "split_on (\<lambda>c. c = CHR ''.'') s = g # gs"
    using split_on_nonempty by (cases "split_on (\<lambda>c. c = CHR ''.'') s") auto
  then have s: "s = g @ concat (map ((#) CHR ''.'') gs)" by (rule split_on_join)
  from assms sp have "digit_group g" by (simp add: dotted_integers_def)
  then obtain c g' where "g = c # g'" "is_digit c" by (cases g) (auto simp: digit_group_def)
  with s show ?thesis by simp
qed

lemma dotted_after_digits:
  assumes "dotted_integers s"
  shows "take 1 (dropWhile is_digit s) \<noteq> ''!''"
proof -
  obtain g gs where sp: "split_on (\<lambda>c. c = CHR ''.'') s = g # gs"
    using split_on_nonempty by (cases "split_on (\<lambda>c. c = CHR ''.'') s") auto
  then have s: "s = g @ concat (map ((#) CHR ''.'') gs)" by (rule split_on_join)
  from assms sp have "list_all is_digit g" by (simp add: dotted_integers_def digit_group_def)
  from dropWhile_group[OF this, of gs] s take1_dots[of gs] show ?thesis by simp
qed

lemma match_words_Nil: "[] \<notin> set ws \<Longrightarrow> match_words ws [] = None"
  by (induction ws) (auto simp: match_word_def)

lemma letter_group_Nil: "[] \<notin> set ws \<Longrightarrow> letter_group ws [] = None"
  by (simp add: letter_group_def opt_sep_def match_words_Nil)

lemma post_group_Nil: "post_group [] = None"
  by (simp add: post_group_def)

lemma sequence_py_int:
  "sequence (map py_int gs) =
     (if list_all (\<lambda>g. length g \<le> int_max_str_digits) gs then Inr (map int_of_digits gs)
      else Inl ValueError)"
  by (induction gs) (auto simp: py_int_def)

lemma parse_dotted_cases:
  assumes "dotted_integers s"
  shows "parse s = (if within_int_limit s
                    then Inr \<lparr> epoch = 0, release = components s, pre = None, post = None,
                               dev = None, local = None \<rparr>
                    else Inl ValueError)"
proof -
  from dotted_first_digit[OF assms] obtain c r where s: "s = c # r" and c: "is_digit c" by blast
  from c have nsp: "\<not> is_space c" and nv: "lower c \<noteq> CHR ''v''"
    by (auto simp: is_digit_def is_space_def lower_def)
  have s1: "dropWhile is_space s = s" using s nsp by simp
  have s2: "(case s of c # r \<Rightarrow> if lower c = CHR ''v'' then r else s | [] \<Rightarrow> []) = s"
    using s nv by simp
  have ep: "\<not> (takeWhile is_digit s \<noteq> [] \<and> take 1 (dropWhile is_digit s) = ''!'')"
    using dotted_after_digits[OF assms] by simp
  show ?thesis
    unfolding parse_def Let_def s1 s2 if_not_P[OF ep]
    by (simp add: release_span_dotted[OF assms] letter_group_Nil post_group_Nil
          parse_letter_version_def components_def sequence_py_int within_int_limit_def)
qed

lemma parse_dotted:
  assumes "dotted_integers s" and "within_int_limit s"
  shows "parse s = Inr \<lparr> epoch = 0, release = components s, pre = None, post = None,
                          dev = None, local = None \<rparr>"
  using parse_dotted_cases[OF assms(1)] assms(2) by simp

lemma parse_dotted_long:
  assumes "dotted_integers s" and "\<not> within_int_limit s"
  shows "parse s = Inl ValueError"
  using parse_dotted_cases[OF assms(1)] assms(2) by simp

lemma strip_zeros_Nil: "strip_zeros [] = []"
  by (simp add: strip_zeros_def)

lemma strip_zeros_Cons:
  "strip_zeros (x # xs) = (if x = 0 \<and> strip_zeros xs = [] then [] else x # strip_zeros xs)"
  by (auto simp: strip_zeros_def dropWhile_append)

lemma cmp_nat_simps:
  "cmp_nat x x = EQ" "x < y \<Longrightarrow> cmp_nat x y = LT" "y < x \<Longrightarrow> cmp_nat x y = GT"
  "(cmp_nat x y = EQ) = (x = y)" "(cmp_nat x y = LT) = (x < y)" "(cmp_nat x y = GT) = (y < x)"
  by (auto simp: cmp_nat_def)

lemma cmp_stripped: "cmp_list cmp_nat (strip_zeros xs) (strip_zeros ys) = padded_cmp xs ys"
proof (induction xs ys rule: padded_cmp.induct)
  case 1
  then show ?case by (simp add: strip_zeros_Nil)
next
  case (2 y ys)
  then show ?case
    by (cases "strip_zeros ys") (auto simp: strip_zeros_Nil strip_zeros_Cons)
next
  case (3 x xs)
  then show ?case
    by (cases "strip_zeros xs") (auto simp: strip_zeros_Nil strip_zeros_Cons)
next
  case (4 x xs y ys)
  show ?case
  proof (cases "cmp_nat x y")
    case LT
    then have "x < y" by (simp add: cmp_nat_simps)
    then show ?thesis using LT by (auto simp: strip_zeros_Cons cmp_nat_simps)
  next
    case EQ
    then have xy: "x = y" by (simp add: cmp_nat_simps)
    with 4 EQ show ?thesis
      by (cases "strip_zeros xs"; cases "strip_zeros ys")
         (auto simp: strip_zeros_Nil strip_zeros_Cons cmp_nat_simps split: if_splits)
  next
    case GT
    then have "y < x" by (simp add: cmp_nat_simps)
    then show ?thesis using GT by (auto simp: strip_zeros_Cons cmp_nat_simps)
  qed
qed

lemma pad_Nil: "pad (Suc n) [] = 0 # pad n []"
  by (simp add: pad_def)

lemma pad_Cons: "pad (Suc n) (x # xs) = x # pad n xs"
  by (simp add: pad_def)

lemma cmp_padded:
  "length xs \<le> n \<Longrightarrow> length ys \<le> n \<Longrightarrow> cmp_list cmp_nat (pad n xs) (pad n ys) = padded_cmp xs ys"
proof (induction xs ys arbitrary: n rule: padded_cmp.induct)
  case 1
  then show ?case by (induction n) (simp_all add: pad_def cmp_nat_simps)
next
  case (2 y ys)
  then obtain m where n: "n = Suc m" by (cases n) auto
  with 2 show ?case by (auto simp: pad_Nil pad_Cons cmp_nat_simps cmp_nat_def)
next
  case (3 x xs)
  then obtain m where n: "n = Suc m" by (cases n) auto
  with 3 show ?case by (auto simp: pad_Nil pad_Cons cmp_nat_simps cmp_nat_def)
next
  case (4 x xs y ys)
  then obtain m where n: "n = Suc m" by (cases n) auto
  with 4 show ?case by (auto simp: pad_Cons cmp_nat_simps split: ordering.splits)
qed

lemma padded_ge_strip:
  "padded_ge xs ys \<longleftrightarrow> cmp_list cmp_nat (strip_zeros xs) (strip_zeros ys) \<noteq> LT"
  by (simp add: padded_ge_def cmp_padded cmp_stripped)

lemma cmp_key_release_only:
  "cmp_key (0, a, Infinity, NegativeInfinity, Infinity, NegativeInfinity)
           (0, b, Infinity, NegativeInfinity, Infinity, NegativeInfinity) = cmp_list cmp_nat a b"
  by (simp add: cmp_key_def cmp_pair_def cmp_nat_simps split: ordering.splits)

lemma version_ge_release_only:
  "version_ge \<lparr> epoch = 0, release = a, pre = None, post = None, dev = None, local = None \<rparr>
              \<lparr> epoch = 0, release = b, pre = None, post = None, dev = None, local = None \<rparr>
   \<longleftrightarrow> padded_ge a b"
  by (simp add: version_ge_def cmpkey_def cmp_key_release_only padded_ge_strip strip_zeros_def)

lemma compatible_dotted:
  assumes "dotted_integers h" "within_int_limit h"
    and "dotted_integers (parse_engine_requirement r)"
        "within_int_limit (parse_engine_requirement r)"
  shows "is_version_compatible h r
         = Inr (padded_ge (components h) (components (parse_engine_requirement r)), [])"
  by (simp add: is_version_compatible_def parse_dotted[OF assms(1,2)] parse_dotted[OF assms(3,4)]
        version_ge_release_only)

lemma takeWhile_group_tail:
  "list_all is_digit g \<Longrightarrow> stops t \<Longrightarrow>
   takeWhile is_digit (g @ concat (map ((#) CHR ''.'') gs) @ t) = g"
  by (cases gs; cases t) (auto simp: list_all_iff not_digit_dot stops_def)

lemma dropWhile_group_tail:
  "list_all is_digit g \<Longrightarrow> stops t \<Longrightarrow>
   dropWhile is_digit (g @ concat (map ((#) CHR ''.'') gs) @ t) = concat (map ((#) CHR ''.'') gs) @ t"
  by (cases gs; cases t) (auto simp: list_all_iff not_digit_dot stops_def)

lemma dot_groups_tail:
  "list_all digit_group gs \<Longrightarrow> stops t \<Longrightarrow>
   dot_groups (concat (map ((#) CHR ''.'') gs) @ t) = (concat (map ((#) CHR ''.'') gs), t)"
proof (induction gs)
  case Nil
  then show ?case by (cases t) (auto simp: stops_def)
next
  case (Cons g gs)
  then have gd: "list_all is_digit g" and gne: "g \<noteq> []" by (simp_all add: digit_group_def)
  from Cons show ?case
    by (simp add: takeWhile_group_tail[OF gd Cons.prems(2)] dropWhile_group_tail[OF gd Cons.prems(2)] gne)
qed

lemma release_span_tail:
  assumes "dotted_integers s" "stops t"
  shows "release_span (s @ t) = Some (s, t)"
proof -
  obtain g gs where sp: "split_on (\<lambda>c. c = CHR ''.'') s = g # gs"
    using split_on_nonempty by (cases "split_on (\<lambda>c. c = CHR ''.'') s") auto
  then have s: "s = g @ concat (map ((#) CHR ''.'') gs)" by (rule split_on_join)
  from assms sp have g: "digit_group g" and gs: "list_all digit_group gs"
    by (simp_all add: dotted_integers_def)
  from g have gd: "list_all is_digit g" and gne: "g \<noteq> []" by (simp_all add: digit_group_def)
  have "release_span (g @ concat (map ((#) CHR ''.'') gs) @ t) = Some (g @ concat (map ((#) CHR ''.'') gs), t)"
    by (simp add: release_span_def takeWhile_group_tail[OF gd assms(2)]
          dropWhile_group_tail[OF gd assms(2)] dot_groups_tail[OF gs assms(2)] gne)
  with s show ?thesis by simp
qed

lemma no_epoch_tail:
  assumes "dotted_integers s" "stops t" "take 1 t \<noteq> ''!''"
  shows "take 1 (dropWhile is_digit (s @ t)) \<noteq> ''!''"
proof -
  obtain g gs where sp: "split_on (\<lambda>c. c = CHR ''.'') s = g # gs"
    using split_on_nonempty by (cases "split_on (\<lambda>c. c = CHR ''.'') s") auto
  then have s: "s = g @ concat (map ((#) CHR ''.'') gs)" by (rule split_on_join)
  from assms sp have gd: "list_all is_digit g" by (simp add: dotted_integers_def digit_group_def)
  from dropWhile_group_tail[OF gd assms(2), of gs] s assms(3) show ?thesis by (cases gs) auto
qed

lemma lower_digit: "is_digit d \<Longrightarrow> lower d = d"
  unfolding is_digit_def lower_def by (elim disjE | simp)+

lemma match_word_first: "lower d \<noteq> c \<Longrightarrow> match_word (c # w) (d # q) = None"
  by (simp add: match_word_def)

lemma digit_not_letter:
  "is_digit d \<Longrightarrow> d \<noteq> CHR ''a'' \<and> d \<noteq> CHR ''b'' \<and> d \<noteq> CHR ''c'' \<and> d \<noteq> CHR ''p'' \<and> d \<noteq> CHR ''r''"
  unfolding is_digit_def by (elim disjE | simp)+

lemma match_words_digit:
  assumes "is_digit d"
  shows "match_words [''alpha'', ''a'', ''beta'', ''b'', ''preview'', ''pre'', ''c'', ''rc''] (d # q) = None"
proof -
  have w: "match_word (c # w) (d # q) = None" if "d \<noteq> c" for c w
    using that by (simp add: match_word_first lower_digit[OF assms])
  from digit_not_letter[OF assms] show ?thesis
    by (simp add: w)
qed

lemma parse_post_qualified:
  assumes "dotted_integers s" "digit_group q"
    and "within_int_limit s" "length q \<le> int_max_str_digits"
  shows "parse (s @ CHR ''-'' # q) =
         Inr \<lparr> epoch = 0, release = components s, pre = None,
                post = Some (''post'', int_of_digits q), dev = None, local = None \<rparr>"
proof -
  let ?t = "CHR ''-'' # q"
  have st: "stops ?t" by (simp add: stops_def is_digit_def)
  from dotted_first_digit[OF assms(1)] obtain c r where s: "s = c # r" and c: "is_digit c" by blast
  from c have nsp: "\<not> is_space c" and nv: "lower c \<noteq> CHR ''v''"
    by (auto simp: is_digit_def is_space_def lower_def)
  have s1: "dropWhile is_space (s @ ?t) = s @ ?t" using s nsp by simp
  have s2: "(case s @ ?t of c # r \<Rightarrow> if lower c = CHR ''v'' then r else s @ ?t | [] \<Rightarrow> []) = s @ ?t"
    using s nv by simp
  have ep: "\<not> (takeWhile is_digit (s @ ?t) \<noteq> [] \<and> take 1 (dropWhile is_digit (s @ ?t)) = ''!'')"
    using no_epoch_tail[OF assms(1) st] by simp
  from assms(2) obtain d q' where q: "q = d # q'" and d: "is_digit d" and qd: "list_all is_digit q"
    by (cases q) (auto simp: digit_group_def)
  have tq: "takeWhile is_digit q = q" "dropWhile is_digit q = []"
    using qd by (simp_all add: list_all_iff takeWhile_eq_all_conv)
  have pre: "letter_group [''alpha'', ''a'', ''beta'', ''b'', ''preview'', ''pre'', ''c'', ''rc''] ?t = None"
    using match_words_digit[OF d, of q'] by (simp add: letter_group_def opt_sep_def is_sep_def q)
  have qne: "q \<noteq> []" using q by simp
  have post: "post_group ?t = Some (None, Some q, [])"
    by (simp add: post_group_def tq qne)
  have lim: "list_all (\<lambda>g. length g \<le> int_max_str_digits) (split_on (\<lambda>c. c = CHR ''.'') s)"
    using assms(3) by (simp add: within_int_limit_def)
  have nl: "\<not> int_max_str_digits < length q"
    using assms(4) by simp
  show ?thesis
    unfolding parse_def Let_def s1 s2 if_not_P[OF ep]
    by (simp add: release_span_tail[OF assms(1) st] pre post letter_group_Nil
          parse_letter_version_def components_def qne sequence_py_int lim py_int_def nl)
qed

lemma cmp_key_post:
  "cmp_key (0, a, Infinity, NegativeInfinity, Infinity, NegativeInfinity)
           (0, b, Infinity, Fin p, Infinity, NegativeInfinity)
   = (case cmp_list cmp_nat a b of EQ \<Rightarrow> LT | r \<Rightarrow> r)"
  by (simp add: cmp_key_def cmp_pair_def cmp_nat_simps split: ordering.splits)

lemma version_ge_post:
  "version_ge \<lparr> epoch = 0, release = a, pre = None, post = None, dev = None, local = None \<rparr>
              \<lparr> epoch = 0, release = b, pre = None, post = Some p, dev = None, local = None \<rparr>
   \<longleftrightarrow> padded_gt a b"
proof -
  have "cmp_list cmp_nat (strip_zeros a) (strip_zeros b)
        = cmp_list cmp_nat (pad (max (length a) (length b)) a) (pad (max (length a) (length b)) b)"
    by (simp add: cmp_padded cmp_stripped)
  then show ?thesis
    unfolding version_ge_def cmpkey_def padded_gt_def strip_zeros_def
    by (simp add: cmp_key_post split: ordering.splits)
qed

lemma compatible_post_qualified:
  assumes "dotted_integers h" "within_int_limit h"
    and "dotted_integers s" "within_int_limit s"
    and "digit_group q" "length q \<le> int_max_str_digits"
    and "parse_engine_requirement r = s @ CHR ''-'' # q"
  shows "is_version_compatible h r = Inr (padded_gt (components h) (components s), [])"
  by (simp add: is_version_compatible_def parse_dotted[OF assms(1,2)] assms(7)
        parse_post_qualified[OF assms(3,5,4,6)] version_ge_post)

lemma numeric_part_dotted:
  assumes "dotted_integers s"
  shows "numeric_part s = s"
proof -
  obtain g gs where sp: "split_on (\<lambda>c. c = CHR ''.'') s = g # gs"
    using split_on_nonempty by (cases "split_on (\<lambda>c. c = CHR ''.'') s") auto
  then have s: "s = g @ concat (map ((#) CHR ''.'') gs)" by (rule split_on_join)
  from assms sp have "list_all is_digit g" and "list_all (list_all is_digit) gs"
    by (simp_all add: dotted_integers_def digit_group_def list_all_iff)
  then have "\<forall>c \<in> set (g @ concat (map ((#) CHR ''.'') gs)). is_digit c \<or> c = CHR ''.''"
    by (auto simp: list_all_iff)
  with s show ?thesis
    by (simp add: numeric_part_def takeWhile_eq_all_conv)
qed

lemma strip_prefix_caret: "parse_engine_requirement (CHR ''^'' # v) = parse_engine_requirement v"
  by (simp add: parse_engine_requirement_def)

lemma strip_prefix_tilde: "parse_engine_requirement (CHR ''~'' # v) = parse_engine_requirement v"
  by (simp add: parse_engine_requirement_def)

lemma strip_prefix_ge:
  "parse_engine_requirement (CHR ''>'' # CHR ''='' # v) = parse_engine_requirement v"
  by (simp add: parse_engine_requirement_def)

lemma compatible_depends_on_stripped:
  assumes "parse_engine_requirement r = parse_engine_requirement r'"
  shows "is_version_compatible h r = is_version_compatible h r'"
  unfolding is_version_compatible_def assms by (rule refl)

lemmas parser_defs = parse_def release_span_def local_span_def letter_group_def post_group_def
  opt_sep_def opt_number_def match_word_def parse_letter_version_def parse_local_version_def
  is_digit_def is_space_def is_sep_def is_alnum_def lower_def int_of_digits_def Let_def
  py_int_def int_max_str_digits_def

lemmas comparator_defs = is_version_compatible_def parse_engine_requirement_def version_ge_def
  cmpkey_def cmp_key_def cmp_pair_def cmp_nat_def cmp_str_def

lemmas spec_defs = spec_is_compatible_def numeric_part_def components_def padded_ge_def
  padded_gt_def pad_def dotted_integers_def digit_group_def

lemma example_same_minor:
  "is_version_compatible ''1.109.51242'' ''^1.109.0-20260124'' = Inr (True, [])"
  by (simp add: comparator_defs parser_defs)

lemma example_next_minor: "is_version_compatible ''1.109.51242'' ''^1.110.0'' = Inr (False, [])"
  by (simp add: comparator_defs parser_defs)

lemma example_older_host: "is_version_compatible ''1.100.0'' ''^1.109.0'' = Inr (False, [])"
  by (simp add: comparator_defs parser_defs)

lemma example_newer_host: "is_version_compatible ''1.200.0'' ''^1.109.0'' = Inr (True, [])"
  by (simp add: comparator_defs parser_defs)

text \<open>
  C4. The four documented comparisons come out as stated (and print nothing), and the
  prefixes \<^verbatim>\<open>^\<close>, \<^verbatim>\<open>>=\<close> and \<^verbatim>\<open>~\<close> are stripped alike: for every host version and every
  version text, the three prefixed requirements get the same answer.
\<close>

theorem comparator_examples_and_prefixes:
  "is_version_compatible ''1.109.51242'' ''^1.109.0-20260124'' = Inr (True, [])
   \<and> is_version_compatible ''1.109.51242'' ''^1.110.0'' = Inr (False, [])
   \<and> is_version_compatible ''1.100.0'' ''^1.109.0'' = Inr (False, [])
   \<and> is_version_compatible ''1.200.0'' ''^1.109.0'' = Inr (True, [])
   \<and> (\<forall>h v. is_version_compatible h (''^'' @ v) = is_version_compatible h (''>='' @ v)
            \<and> is_version_compatible h (''>='' @ v) = is_version_compatible h (''~'' @ v))"
proof -
  have p1: "is_version_compatible h (''^'' @ v) = is_version_compatible h (''>='' @ v)" for h v
    by (rule compatible_depends_on_stripped) (simp add: strip_prefix_caret strip_prefix_ge)
  have p2: "is_version_compatible h (''>='' @ v) = is_version_compatible h (''~'' @ v)" for h v
    by (rule compatible_depends_on_stripped) (simp add: strip_prefix_tilde strip_prefix_ge)
  show ?thesis
    by (intro conjI allI example_same_minor example_next_minor example_older_host
          example_newer_host p1 p2)
qed

text \<open>
  C7, as stated, fails: a trailing qualifier is not ignored. The requirement
  \<^verbatim>\<open>^1.109.0-20260124\<close> is read as the post-release 20260124 of 1.109.0, which is above
  1.109.0, so the host 1.109.0 is refused, although it satisfies \<^verbatim>\<open>^1.109.0\<close> and the
  comparison of the specification accepts it.
\<close>

theorem qualifier_counterexample:
  "is_version_compatible ''1.109.0'' ''^1.109.0-20260124'' = Inr (False, [])
   \<and> is_version_compatible ''1.109.0'' ''^1.109.0'' = Inr (True, [])
   \<and> spec_is_compatible ''1.109.0'' ''^1.109.0-20260124''"
  by (simp add: comparator_defs parser_defs spec_defs)

text \<open>
  C7, amended. When the host version and the requirement without its leading \<^verbatim>\<open>^\<close>, \<^verbatim>\<open>>\<close>,
  \<^verbatim>\<open>=\<close>, \<^verbatim>\<open>~\<close> characters are plain dotted-integer versions, no component of which is
  longer than \<^verbatim>\<open>int\<close> converts, the comparator returns host \<open>\<ge>\<close> required in the
  component-wise integer order with missing trailing components read as 0, which is the
  comparison of the specification, and prints nothing. A qualifier is not ignored: behind a
  dotted-integer requirement, \<^verbatim>\<open>-N\<close> with digits \<open>N\<close> makes a post-release, and the comparator
  then returns host \<open>>\<close> required, strictly, in the same order.
\<close>

theorem comparator_dotted:
  assumes "dotted_integers h" and "within_int_limit h"
    and "dotted_integers s" and "within_int_limit s"
  shows "(\<forall>r. parse_engine_requirement r = s \<longrightarrow>
            is_version_compatible h r = Inr (padded_ge (components h) (components s), [])
            \<and> is_version_compatible h r = Inr (spec_is_compatible h r, []))
       \<and> (\<forall>r q. digit_group q \<and> length q \<le> int_max_str_digits
                \<and> parse_engine_requirement r = s @ CHR ''-'' # q \<longrightarrow>
            is_version_compatible h r = Inr (padded_gt (components h) (components s), []))"
proof -
  have "is_version_compatible h r = Inr (padded_ge (components h) (components s), [])"
    if "parse_engine_requirement r = s" for r
    using compatible_dotted[of h r] assms that by simp
  moreover have "is_version_compatible h r = Inr (spec_is_compatible h r, [])"
    if "parse_engine_requirement r = s" for r
    using compatible_dotted[of h r] assms that
    by (simp add: spec_is_compatible_def numeric_part_dotted)
  moreover have "is_version_compatible h r = Inr (padded_gt (components h) (components s), [])"
    if "digit_group q" "length q \<le> int_max_str_digits"
      "parse_engine_requirement r = s @ CHR ''-'' # q" for r q
    using compatible_post_qualified[OF assms that] .
  ultimately show ?thesis by blast
qed

lemma dotted_example_host: "dotted_integers ''1.109.0''"
  by (simp add: spec_defs is_digit_def)

lemma limit_example_host: "within_int_limit ''1.109.0''"
  by (simp add: within_int_limit_def int_max_str_digits_def)

lemma dotted_example_group: "digit_group ''20260124''"
  by (simp add: spec_defs is_digit_def)

lemma limit_example_group: "length ''20260124'' \<le> int_max_str_digits"
  by (simp add: int_max_str_digits_def)

theorem comparator_dotted_witness:
  "dotted_integers ''1.109.0'' \<and> within_int_limit ''1.109.0''
   \<and> parse_engine_requirement ''^1.109.0'' = ''1.109.0''
   \<and> is_version_compatible ''1.109.0'' ''^1.109.0'' = Inr (True, [])
   \<and> digit_group ''20260124'' \<and> length ''20260124'' \<le> int_max_str_digits
   \<and> parse_engine_requirement ''^1.109.0-20260124'' = ''1.109.0'' @ CHR ''-'' # ''20260124''
   \<and> is_version_compatible ''1.109.0'' ''^1.109.0-20260124'' = Inr (False, [])"
proof -
  note inst = comparator_dotted[OF dotted_example_host limit_example_host
                dotted_example_host limit_example_host]
  have p1: "parse_engine_requirement ''^1.109.0'' = ''1.109.0''"
    by (simp add: parse_engine_requirement_def)
  have p2: "parse_engine_requirement ''^1.109.0-20260124'' = ''1.109.0'' @ CHR ''-'' # ''20260124''"
    by (simp add: parse_engine_requirement_def)
  have ge: "padded_ge (components ''1.109.0'') (components ''1.109.0'')"
    by (simp add: spec_defs int_of_digits_def cmp_nat_def)
  have gt: "\<not> padded_gt (components ''1.109.0'') (components ''1.109.0'')"
    by (simp add: spec_defs int_of_digits_def cmp_nat_def)
  from inst p1 ge have a: "is_version_compatible ''1.109.0'' ''^1.109.0'' = Inr (True, [])"
    by simp
  from inst have "digit_group ''20260124'' \<and> length ''20260124'' \<le> int_max_str_digits
      \<and> parse_engine_requirement ''^1.109.0-20260124'' = ''1.109.0'' @ CHR ''-'' # ''20260124''
      \<longrightarrow> is_version_compatible ''1.109.0'' ''^1.109.0-20260124''
          = Inr (padded_gt (components ''1.109.0'') (components ''1.109.0''), [])"
    by blast
  with dotted_example_group limit_example_group p2 gt
  have b: "is_version_compatible ''1.109.0'' ''^1.109.0-20260124'' = Inr (False, [])"
    by simp
  from dotted_example_host limit_example_host p1 a dotted_example_group limit_example_group p2 b
  show ?thesis by blast
qed

lemma invalid_version_is_false:
  assumes "parse h = Inl InvalidVersion
           \<or> (\<exists>v. parse h = Inr v) \<and> parse (parse_engine_requirement r) = Inl InvalidVersion"
  shows "\<exists>t. is_version_compatible h r = Inr (False, [VersionComparisonFailed t])
             \<and> level_of (VersionComparisonFailed t) = Warning"
  using assms by (auto simp: is_version_compatible_def)

lemma true_without_warning:
  assumes "is_version_compatible h r = Inr (True, warnings)"
  shows "warnings = []"
proof (cases "parse h")
  case (Inl e)
  with assms show ?thesis by (cases e) (simp_all add: is_version_compatible_def)
next
  case (Inr v)
  show ?thesis
  proof (cases "parse (parse_engine_requirement r)")
    case (Inl e)
    with assms Inr show ?thesis by (cases e) (simp_all add: is_version_compatible_def)
  next
    case (Inr w)
    with assms \<open>parse h = Inr v\<close> show ?thesis by (simp add: is_version_compatible_def)
  qed
qed

lemma other_exception_escapes:
  assumes "e \<noteq> InvalidVersion"
    and "parse h = Inl e \<or> (\<exists>v. parse h = Inr v) \<and> parse (parse_engine_requirement r) = Inl e"
  shows "is_version_compatible h r = Inl e"
  using assms by (cases e) (auto simp: is_version_compatible_def)

lemma split_on_replicate: "\<not> P c \<Longrightarrow> split_on P (replicate n c) = [replicate n c]"
  by (induction n) simp_all

lemma long_digit_run_dotted: "dotted_integers long_digit_run"
  by (simp add: long_digit_run_def dotted_integers_def digit_group_def split_on_replicate
        list_all_iff is_digit_def)

lemma long_digit_run_limit: "\<not> within_int_limit long_digit_run"
  by (simp add: long_digit_run_def within_int_limit_def split_on_replicate
        int_max_str_digits_def)

lemma long_digit_run_parse: "parse long_digit_run = Inl ValueError"
  by (rule parse_dotted_long[OF long_digit_run_dotted long_digit_run_limit])

lemma long_requirement_stripped: "parse_engine_requirement long_requirement = long_digit_run"
  by (simp add: long_requirement_def long_digit_run_def parse_engine_requirement_def)

lemma invalid_example: "parse ''1.109.0-insider'' = Inl InvalidVersion"
  by (simp add: parser_defs)

lemma example_host_parses:
  "parse ''1.109.51242'' = Inr \<lparr> epoch = 0, release = [1, 109, 51242], pre = None, post = None,
                                   dev = None, local = None \<rparr>"
  by (simp add: parser_defs)

lemma long_requirement_escapes:
  "is_version_compatible ''1.109.51242'' long_requirement = Inl ValueError"
  by (simp add: is_version_compatible_def example_host_parses long_requirement_stripped
        long_digit_run_parse)

lemma long_host_escapes: "is_version_compatible long_digit_run ''^1.109.0'' = Inl ValueError"
  by (simp add: is_version_compatible_def long_digit_run_parse)

section \<open>Properties of the version selector\<close>

lemma check_empty_supported: "check_api_compatibility R {} = (True, [])"
  by (simp add: check_api_compatibility_def)

lemma say_fields:
  "checked_count (say es st) = checked_count st"
  "skipped_prerelease (say es st) = skipped_prerelease st"
  "skipped_incompatible_engine (say es st) = skipped_incompatible_engine st"
  "skipped_incompatible_api (say es st) = skipped_incompatible_api st"
  "printed (say es st) = printed st @ es"
  by (simp_all add: say_def)

lemma say_Nil: "say [] st = st"
  by (simp add: say_def)

lemma at_download_fields:
  "checked_count (at_download ver e st) = checked_count st + 1"
  "skipped_prerelease (at_download ver e st) = skipped_prerelease st"
  "skipped_incompatible_engine (at_download ver e st) = skipped_incompatible_engine st"
  "skipped_incompatible_api (at_download ver e st) = skipped_incompatible_api st"
  by (simp_all add: at_download_def Let_def say_fields)

lemma extraction_fails_empty:
  "extraction_fails package \<Longrightarrow> fst (extract_api_proposals_from_vsix package) = JArr []"
  by (auto simp: extraction_fails_def extract_api_proposals_from_vsix_def
           split: vsix.splits option.splits member.splits json.splits)

lemma extraction_fails_error:
  "extraction_fails package \<Longrightarrow>
     \<exists>e. snd (extract_api_proposals_from_vsix package) = [e] \<and> level_of e = Error"
  by (auto simp: extraction_fails_def extract_api_proposals_from_vsix_def
           split: vsix.splits option.splits member.splits json.splits)

lemma probe_prerelease:
  assumes "properties_get ver ''Microsoft.VisualStudio.Code.PreRelease'' = Some ''true''"
  shows "probe_version download tv supp st ver =
           (st\<lparr>checked_count := checked_count st + 1,
               skipped_prerelease := skipped_prerelease st + 1\<rparr>, Inr None)"
  using assms by (simp add: probe_version_def Let_def)

lemma probe_engine_mismatch:
  assumes "properties_get ver ''Microsoft.VisualStudio.Code.PreRelease'' \<noteq> Some ''true''"
    and "properties_get ver ''Microsoft.VisualStudio.Code.Engine'' = Some engine"
    and "engine \<noteq> []"
    and "is_version_compatible tv engine = Inr (False, warnings)"
  shows "\<exists>st'. probe_version download tv supp st ver = (st', Inr None)
           \<and> checked_count st' = checked_count st + 1
           \<and> skipped_prerelease st' = skipped_prerelease st
           \<and> skipped_incompatible_engine st' = skipped_incompatible_engine st + 1
           \<and> skipped_incompatible_api st' = skipped_incompatible_api st"
  using assms
  by (simp add: probe_version_def Let_def say_fields)

lemma probe_comparator_raises:
  assumes "properties_get ver ''Microsoft.VisualStudio.Code.PreRelease'' \<noteq> Some ''true''"
    and "properties_get ver ''Microsoft.VisualStudio.Code.Engine'' = Some engine"
    and "engine \<noteq> []"
    and "is_version_compatible tv engine = Inl e"
  shows "snd (probe_version download tv supp st ver) = Inl e"
    and "snd (scan download tv supp st (ver # rest)) = Inl e"
proof -
  show p: "snd (probe_version download tv supp st ver) = Inl e"
    using assms by (simp add: probe_version_def Let_def)
  then show "snd (scan download tv supp st (ver # rest)) = Inl e"
    by (cases "probe_version download tv supp st ver") simp
qed

lemma probe_no_package:
  assumes "properties_get ver ''Microsoft.VisualStudio.Code.PreRelease'' \<noteq> Some ''true''"
    and "properties_get ver ''Microsoft.VisualStudio.Code.Engine'' = Some engine"
    and "engine \<noteq> []"
    and "is_version_compatible tv engine = Inr (True, warnings)"
    and "find (\<lambda>f. assetType f = Some ''Microsoft.VisualStudio.Services.VSIXPackage'')
              (ver_files ver) = None
         \<or> (\<exists>f. find (\<lambda>f. assetType f = Some ''Microsoft.VisualStudio.Services.VSIXPackage'')
                    (ver_files ver) = Some f
                \<and> (source f = None \<or> source f = Some []))"
  shows "\<exists>st'. probe_version download tv supp st ver = (st', Inr None)
           \<and> checked_count st' = checked_count st + 1
           \<and> skipped_prerelease st' = skipped_prerelease st
           \<and> skipped_incompatible_engine st' = skipped_incompatible_engine st
           \<and> skipped_incompatible_api st' = skipped_incompatible_api st"
  using assms
  by (auto simp: probe_version_def Let_def say_fields)

lemma probe_reached:
  assumes "reaches_probe download tv ver engine url package"
  shows "probe_version download tv supp st ver =
           apsnd Inr
             (check_downloaded supp (ver_name ver) engine url (at_download ver engine st)
                package)"
  using assms
  by (auto simp: reaches_probe_def probe_version_def at_download_def ver_name_def Let_def
        say_Nil)

lemma those_as_str: "those (map as_str (map JStr R)) = Some R"
  by (induction R) simp_all

lemma those_as_str_comp: "those (map (as_str \<circ> JStr) R) = Some R"
  by (induction R) simp_all

lemma check_manifest_strings:
  "check_manifest (JArr (map JStr R)) supp
     = Some (if supp = {} then (True, []) else check_api_compatibility R supp)"
  by (simp add: check_manifest_def those_as_str_comp check_empty_supported)

lemma accept_version_falsy:
  "\<not> truthy required_apis \<Longrightarrow>
   accept_version n e u required_apis st =
     (say [FoundCompatible n, EngineRequirement e, counters_line st] st,
      Some \<lparr>version = n, engine_requirement = e, vsix_url = u\<rparr>)"
  by (simp add: accept_version_def Let_def say_def counters_line_def)

lemma accept_version_list:
  "R \<noteq> [] \<Longrightarrow>
   accept_version n e u (JArr (map JStr R)) st =
     (say [FoundCompatible n, EngineRequirement e, AllSupported (length R), counters_line st] st,
      Some \<lparr>version = n, engine_requirement = e, vsix_url = u\<rparr>)"
  by (simp add: accept_version_def Let_def say_def counters_line_def)

lemma check_downloaded_empty:
  assumes "fst (extract_api_proposals_from_vsix package) = JArr []"
  shows "check_downloaded supp n e u st package =
     (say (snd (extract_api_proposals_from_vsix package)
           @ [FoundCompatible n, EngineRequirement e, counters_line st]) st,
      Some \<lparr>version = n, engine_requirement = e, vsix_url = u\<rparr>)"
  using assms
  by (cases "extract_api_proposals_from_vsix package")
     (simp add: check_downloaded_def accept_version_falsy say_def counters_line_def)

lemma check_downloaded_compatible:
  assumes "fst (extract_api_proposals_from_vsix package) = JArr (map JStr R)"
    and "supp = {} \<or> fst (check_api_compatibility R supp)"
  shows "check_downloaded supp n e u st package =
     (say (snd (extract_api_proposals_from_vsix package)
           @ [FoundCompatible n, EngineRequirement e]
           @ (if R = [] then [] else [AllSupported (length R)])
           @ [counters_line st]) st,
      Some \<lparr>version = n, engine_requirement = e, vsix_url = u\<rparr>)"
proof (cases "R = []")
  case True
  with assms(1) have "fst (extract_api_proposals_from_vsix package) = JArr []" by simp
  from check_downloaded_empty[OF this] True show ?thesis by simp
next
  case False
  obtain errs where ex: "extract_api_proposals_from_vsix package = (JArr (map JStr R), errs)"
    using assms(1) by (cases "extract_api_proposals_from_vsix package") simp
  have ok: "check_manifest (JArr (map JStr R)) supp = Some (True, snd (check_api_compatibility R supp))
            \<or> check_manifest (JArr (map JStr R)) supp = Some (True, [])"
    using assms(2)
    by (cases "check_api_compatibility R supp") (auto simp: check_manifest_strings)
  then show ?thesis
    using False
    by (auto simp: check_downloaded_def ex accept_version_list say_def counters_line_def)
qed

lemma check_downloaded_incompatible:
  assumes "fst (extract_api_proposals_from_vsix package) = JArr (map JStr R)"
    and "supp \<noteq> {}" and "\<not> fst (check_api_compatibility R supp)"
  shows "snd (check_downloaded supp n e u st package) = None"
    and "skipped_incompatible_api (fst (check_downloaded supp n e u st package))
           = skipped_incompatible_api st + 1"
proof -
  obtain errs where ex: "extract_api_proposals_from_vsix package = (JArr (map JStr R), errs)"
    using assms(1) by (cases "extract_api_proposals_from_vsix package") simp
  have ne: "R \<noteq> []"
    using assms(2,3) by (auto simp: check_api_compatibility_def)
  obtain u' where c: "check_api_compatibility R supp = (False, u')"
    using assms(3) by (cases "check_api_compatibility R supp") simp
  show "snd (check_downloaded supp n e u st package) = None"
    using ne assms(2) by (simp add: check_downloaded_def ex check_manifest_strings c Let_def)
  show "skipped_incompatible_api (fst (check_downloaded supp n e u st package))
           = skipped_incompatible_api st + 1"
    using ne assms(2) by (simp add: check_downloaded_def ex check_manifest_strings c say_fields Let_def)
qed

lemma probe_download_fails:
  assumes "properties_get ver ''Microsoft.VisualStudio.Code.PreRelease'' \<noteq> Some ''true''"
    and "properties_get ver ''Microsoft.VisualStudio.Code.Engine'' = Some engine"
    and "engine \<noteq> []"
    and "is_version_compatible tv engine = Inr (True, [])"
    and "find (\<lambda>f. assetType f = Some ''Microsoft.VisualStudio.Services.VSIXPackage'')
              (ver_files ver) = Some f"
    and "source f = Some url" and "url \<noteq> []" and "download url = None"
  shows "probe_version download tv supp st ver
           = (say [FailedToCheck (ver_name ver)] (at_download ver engine st), Inr None)"
  using assms
  by (auto simp: probe_version_def at_download_def ver_name_def Let_def say_Nil)

text \<open>
  C3. A catalog of four records, in this order: a pre-release; a record whose engine
  requirement the host does not satisfy; a record with a satisfied engine requirement but no
  package reference (no package file, or one without a URL); and a record that gets as far
  as the download, whose package declares requirements the gate accepts. The selector
  returns the fourth record, and the last line it prints reports 4 checked, 1 pre-release,
  1 wrong engine, 0 incompatible APIs.
\<close>

theorem four_record_catalog:
  assumes v1: "properties_get v1 ''Microsoft.VisualStudio.Code.PreRelease'' = Some ''true''"
    and v2: "properties_get v2 ''Microsoft.VisualStudio.Code.PreRelease'' \<noteq> Some ''true''"
            "properties_get v2 ''Microsoft.VisualStudio.Code.Engine'' = Some e2"
            "e2 \<noteq> []" "is_version_compatible tv e2 = Inr (False, w2)"
    and v3: "properties_get v3 ''Microsoft.VisualStudio.Code.PreRelease'' \<noteq> Some ''true''"
            "properties_get v3 ''Microsoft.VisualStudio.Code.Engine'' = Some e3"
            "e3 \<noteq> []" "is_version_compatible tv e3 = Inr (True, w3)"
            "find (\<lambda>f. assetType f = Some ''Microsoft.VisualStudio.Services.VSIXPackage'')
                  (ver_files v3) = None
             \<or> (\<exists>f. find (\<lambda>f. assetType f = Some ''Microsoft.VisualStudio.Services.VSIXPackage'')
                        (ver_files v3) = Some f
                    \<and> (source f = None \<or> source f = Some []))"
    and v4: "reaches_probe download tv v4 e4 url package"
            "fst (extract_api_proposals_from_vsix package) = JArr (map JStr R)"
            "supp = {} \<or> fst (check_api_compatibility R supp)"
  shows "fst (find_compatible_version_with_api_check download [v1, v2, v3, v4] tv supp)
           = Inr (Some \<lparr>version = ver_name v4, engine_requirement = e4, vsix_url = url\<rparr>)
       \<and> last (snd (find_compatible_version_with_api_check download [v1, v2, v3, v4] tv supp))
           = CheckedSummary 4 1 1 0"
proof -
  define st0 where "st0 = \<lparr>checked_count = 0, skipped_prerelease = 0,
      skipped_incompatible_engine = 0, skipped_incompatible_api = 0,
      printed = [Searching, WillVerify,
        CheckingUpTo (min (length [v1, v2, v3, v4]) MAX_VERSIONS_TO_CHECK)
          (length [v1, v2, v3, v4])]\<rparr>"
  define st1 where "st1 = st0\<lparr>checked_count := checked_count st0 + 1,
      skipped_prerelease := skipped_prerelease st0 + 1\<rparr>"
  have p1: "probe_version download tv supp st0 v1 = (st1, Inr None)"
    unfolding st1_def by (rule probe_prerelease[OF v1])
  obtain st2 where p2: "probe_version download tv supp st1 v2 = (st2, Inr None)"
    and c2: "checked_count st2 = 2" "skipped_prerelease st2 = 1"
            "skipped_incompatible_engine st2 = 1" "skipped_incompatible_api st2 = 0"
    using probe_engine_mismatch[OF v2, of download supp st1]
    by (auto simp: st1_def st0_def)
  obtain st3 where p3: "probe_version download tv supp st2 v3 = (st3, Inr None)"
    and c3: "checked_count st3 = 3" "skipped_prerelease st3 = 1"
            "skipped_incompatible_engine st3 = 1" "skipped_incompatible_api st3 = 0"
    using probe_no_package[OF v3, of download supp st2] c2
    by auto
  let ?found = "\<lparr>version = ver_name v4, engine_requirement = e4, vsix_url = url\<rparr>"
  let ?st4 = "say (snd (extract_api_proposals_from_vsix package)
           @ [FoundCompatible (ver_name v4), EngineRequirement e4]
           @ (if R = [] then [] else [AllSupported (length R)])
           @ [counters_line (at_download v4 e4 st3)]) (at_download v4 e4 st3)"
  have p4: "probe_version download tv supp st3 v4 = (?st4, Inr (Some ?found))"
    unfolding probe_reached[OF v4(1)] check_downloaded_compatible[OF v4(2,3)] by simp
  have line: "counters_line (at_download v4 e4 st3) = CheckedSummary 4 1 1 0"
    by (simp add: counters_line_def at_download_fields c3)
  have sc: "scan download tv supp st0 [v1, v2, v3, v4] = (?st4, Inr (Some ?found))"
    by (simp add: p1 p2 p3 p4)
  have tk: "take MAX_VERSIONS_TO_CHECK [v1, v2, v3, v4] = [v1, v2, v3, v4]"
    by (simp add: MAX_VERSIONS_TO_CHECK_def)
  have "find_compatible_version_with_api_check download [v1, v2, v3, v4] tv supp
          = (Inr (Some ?found), printed ?st4)"
    unfolding find_compatible_version_with_api_check_def Let_def tk st0_def[symmetric] sc
    by simp
  then show ?thesis
    by (simp add: say_fields line)
qed

lemmas record_defs = stable_record_def vsix_asset_def prerelease_record_def
  engine_mismatch_record_def no_package_record_def compatible_record_def properties_get_def

lemma example_host_satisfies: "is_version_compatible ''1.109.51242'' ''^1.109.0'' = Inr (True, [])"
  by (simp add: comparator_defs parser_defs)

lemma compatible_record_reaches:
  "reaches_probe example_download ''1.109.51242'' compatible_record ''^1.109.0''
     ''https://example.invalid/0.37.6.vsix'' example_package"
  by (simp add: reaches_probe_def record_defs example_host_satisfies example_download_def)

lemma example_package_manifest:
  "fst (extract_api_proposals_from_vsix example_package)
     = JArr (map JStr [''chatHooks@6'', ''someUnknownProposal@99''])"
  by (simp add: extract_api_proposals_from_vsix_def example_package_def)

lemma example_requirements_supported:
  "fst (check_api_compatibility [''chatHooks@6'', ''someUnknownProposal@99'']
          {''chatHooks'', ''someUnknownProposal''})"
  by (simp add: check_api_compatibility_def normalize_api_proposal_def)

theorem four_record_catalog_witness:
  "properties_get prerelease_record ''Microsoft.VisualStudio.Code.PreRelease'' = Some ''true''
   \<and> is_version_compatible ''1.109.51242'' ''^1.110.0'' = Inr (False, [])
   \<and> is_version_compatible ''1.109.51242'' ''^1.109.0-20260124'' = Inr (True, [])
   \<and> find (\<lambda>f. assetType f = Some ''Microsoft.VisualStudio.Services.VSIXPackage'')
        (ver_files no_package_record) = None
   \<and> reaches_probe example_download ''1.109.51242'' compatible_record ''^1.109.0''
        ''https://example.invalid/0.37.6.vsix'' example_package
   \<and> find_compatible_version_with_api_check example_download
        [prerelease_record, engine_mismatch_record, no_package_record, compatible_record]
        ''1.109.51242'' {''chatHooks'', ''someUnknownProposal''}
      = (Inr (Some \<lparr>version = ''0.37.6'', engine_requirement = ''^1.109.0'',
                     vsix_url = ''https://example.invalid/0.37.6.vsix''\<rparr>),
         [Searching, WillVerify, CheckingUpTo 4 4,
          CheckingVersion ''0.37.9'' ''^1.110.0'',
          CheckingVersion ''0.37.8'' ''^1.109.0-20260124'',
          CheckingVersion ''0.37.6'' ''^1.109.0'', Downloading ''0.37.6'',
          FoundCompatible ''0.37.6'', EngineRequirement ''^1.109.0'',
          AllSupported 2, CheckedSummary 4 1 1 0])"
proof -
  let ?cat = "[prerelease_record, engine_mismatch_record, no_package_record, compatible_record]"
  let ?supp = "{''chatHooks'', ''someUnknownProposal''}"
  have h1: "properties_get prerelease_record ''Microsoft.VisualStudio.Code.PreRelease'' = Some ''true''"
    by (simp add: record_defs)
  have h2: "properties_get engine_mismatch_record ''Microsoft.VisualStudio.Code.PreRelease'' \<noteq> Some ''true''"
    "properties_get engine_mismatch_record ''Microsoft.VisualStudio.Code.Engine'' = Some ''^1.110.0''"
    "''^1.110.0'' \<noteq> []" "is_version_compatible ''1.109.51242'' ''^1.110.0'' = Inr (False, [])"
    by (simp_all add: record_defs example_next_minor)
  have nf: "find (\<lambda>f. assetType f = Some ''Microsoft.VisualStudio.Services.VSIXPackage'')
        (ver_files no_package_record) = None"
    by (simp add: record_defs)
  have h3: "properties_get no_package_record ''Microsoft.VisualStudio.Code.PreRelease'' \<noteq> Some ''true''"
    "properties_get no_package_record ''Microsoft.VisualStudio.Code.Engine'' = Some ''^1.109.0-20260124''"
    "''^1.109.0-20260124'' \<noteq> []"
    "is_version_compatible ''1.109.51242'' ''^1.109.0-20260124'' = Inr (True, [])"
    "find (\<lambda>f. assetType f = Some ''Microsoft.VisualStudio.Services.VSIXPackage'')
                  (ver_files no_package_record) = None
             \<or> (\<exists>f. find (\<lambda>f. assetType f = Some ''Microsoft.VisualStudio.Services.VSIXPackage'')
                        (ver_files no_package_record) = Some f
                    \<and> (source f = None \<or> source f = Some []))"
    using nf by (simp_all add: record_defs example_same_minor)
  have h4: "?supp = {} \<or> fst (check_api_compatibility [''chatHooks@6'', ''someUnknownProposal@99''] ?supp)"
    using example_requirements_supported by simp
  note inst = four_record_catalog[OF h1 h2 h3 compatible_record_reaches example_package_manifest h4]
  have res: "fst (find_compatible_version_with_api_check example_download ?cat ''1.109.51242'' ?supp)
      = Inr (Some \<lparr>version = ''0.37.6'', engine_requirement = ''^1.109.0'',
                     vsix_url = ''https://example.invalid/0.37.6.vsix''\<rparr>)"
    using inst by (simp add: ver_name_def record_defs)
  have lg: "snd (find_compatible_version_with_api_check example_download ?cat ''1.109.51242'' ?supp)
      = [Searching, WillVerify, CheckingUpTo 4 4,
          CheckingVersion ''0.37.9'' ''^1.110.0'',
          CheckingVersion ''0.37.8'' ''^1.109.0-20260124'',
          CheckingVersion ''0.37.6'' ''^1.109.0'', Downloading ''0.37.6'',
          FoundCompatible ''0.37.6'', EngineRequirement ''^1.109.0'',
          AllSupported 2, CheckedSummary 4 1 1 0]"
    by (simp add: find_compatible_version_with_api_check_def MAX_VERSIONS_TO_CHECK_def
          probe_version_def check_downloaded_def accept_version_def check_manifest_def
          extract_api_proposals_from_vsix_def example_package_def example_download_def
          check_api_compatibility_def normalize_api_proposal_def say_def record_defs
          example_next_minor example_same_minor example_host_satisfies Let_def)
  from h1 h2(4) h3(4) nf compatible_record_reaches res lg show ?thesis
    by (simp add: prod_eq_iff)
qed

text \<open>
  C10. When a record gets as far as the download and the download succeeds, and the
  extraction yields the empty list, as it does when the package declares no requirement
  and also when the archive is corrupt or its manifest is missing, unreadable or not a JSON
  object, the selector returns that record, whatever the supported set is: the loop ends
  there and the gate has no part in it.
\<close>

theorem empty_manifest_accepted:
  assumes "reaches_probe download tv ver engine url package"
    and "fst (extract_api_proposals_from_vsix package) = JArr [] \<or> extraction_fails package"
  shows "fst (extract_api_proposals_from_vsix package) = JArr []
       \<and> (\<forall>supp st rest.
            snd (probe_version download tv supp st ver)
              = Inr (Some \<lparr>version = ver_name ver, engine_requirement = engine, vsix_url = url\<rparr>)
            \<and> snd (scan download tv supp st (ver # rest))
              = Inr (Some \<lparr>version = ver_name ver, engine_requirement = engine, vsix_url = url\<rparr>))"
proof -
  have e: "fst (extract_api_proposals_from_vsix package) = JArr []"
    using assms(2) extraction_fails_empty by blast
  have p: "snd (probe_version download tv supp st ver)
              = Inr (Some \<lparr>version = ver_name ver, engine_requirement = engine, vsix_url = url\<rparr>)"
    for supp st
    by (simp add: probe_reached[OF assms(1)] check_downloaded_empty[OF e])
  have "snd (scan download tv supp st (ver # rest))
              = Inr (Some \<lparr>version = ver_name ver, engine_requirement = engine, vsix_url = url\<rparr>)"
    for supp st rest
    using p[of supp st]
    by (cases "probe_version download tv supp st ver") simp
  with e p show ?thesis by blast
qed

lemma unreadable_package_reaches:
  "reaches_probe (\<lambda>u. Some unreadable_package) ''1.109.51242'' compatible_record ''^1.109.0''
     ''https://example.invalid/0.37.6.vsix'' unreadable_package"
  by (simp add: reaches_probe_def record_defs example_host_satisfies)

lemma unreadable_package_fails: "extraction_fails unreadable_package"
  by (simp add: extraction_fails_def unreadable_package_def)

theorem empty_manifest_accepted_witness:
  "reaches_probe (\<lambda>u. Some unreadable_package) ''1.109.51242'' compatible_record ''^1.109.0''
     ''https://example.invalid/0.37.6.vsix'' unreadable_package
   \<and> extraction_fails unreadable_package
   \<and> extract_api_proposals_from_vsix unreadable_package = (JArr [], [InvalidPackageJson])
   \<and> snd (scan (\<lambda>u. Some unreadable_package) ''1.109.51242'' {''chatHooks''}
             \<lparr>checked_count = 0, skipped_prerelease = 0, skipped_incompatible_engine = 0,
              skipped_incompatible_api = 0, printed = []\<rparr>
             [compatible_record, prerelease_record])
       = Inr (Some \<lparr>version = ''0.37.6'', engine_requirement = ''^1.109.0'',
                    vsix_url = ''https://example.invalid/0.37.6.vsix''\<rparr>)"
proof -
  have f: "fst (extract_api_proposals_from_vsix unreadable_package) = JArr []
           \<or> extraction_fails unreadable_package"
    using unreadable_package_fails by simp
  note inst = empty_manifest_accepted[OF unreadable_package_reaches f]
  have x: "extract_api_proposals_from_vsix unreadable_package = (JArr [], [InvalidPackageJson])"
    by (simp add: extract_api_proposals_from_vsix_def unreadable_package_def)
  have n: "ver_name compatible_record = ''0.37.6''"
    by (simp add: ver_name_def record_defs)
  from inst have "snd (scan (\<lambda>u. Some unreadable_package) ''1.109.51242'' {''chatHooks''}
             \<lparr>checked_count = 0, skipped_prerelease = 0, skipped_incompatible_engine = 0,
              skipped_incompatible_api = 0, printed = []\<rparr>
             [compatible_record, prerelease_record])
       = Inr (Some \<lparr>version = ver_name compatible_record, engine_requirement = ''^1.109.0'',
                    vsix_url = ''https://example.invalid/0.37.6.vsix''\<rparr>)"
    by blast
  with unreadable_package_reaches unreadable_package_fails x n show ?thesis by simp
qed

text \<open>
  C6. A failing download is skipped with a warning and the scan goes on
  (\<open>probe_download_fails\<close>). A failing extraction is not: the extraction catches its own
  exceptions, prints an error and returns the empty list, and the selector takes the empty
  list for a package without requirements. On a catalog whose only record has a package
  that is not a zip archive, and with a non-empty supported set, the selector prints the
  error and returns that record.
\<close>

theorem corrupt_archive_accepted:
  "find_compatible_version_with_api_check (\<lambda>u. Some NotAZip) [compatible_record]
     ''1.109.51242'' {''chatHooks''}
   = (Inr (Some \<lparr>version = ''0.37.6'', engine_requirement = ''^1.109.0'',
                  vsix_url = ''https://example.invalid/0.37.6.vsix''\<rparr>),
      [Searching, WillVerify, CheckingUpTo 1 1, CheckingVersion ''0.37.6'' ''^1.109.0'',
       Downloading ''0.37.6'', InvalidVsixFile, FoundCompatible ''0.37.6'',
       EngineRequirement ''^1.109.0'', CheckedSummary 1 0 0 0])"
  by (simp add: find_compatible_version_with_api_check_def MAX_VERSIONS_TO_CHECK_def
        probe_version_def check_downloaded_def accept_version_def
        extract_api_proposals_from_vsix_def say_def record_defs example_host_satisfies Let_def)

lemma long_requirement_nonempty: "long_requirement \<noteq> []"
  by (simp add: long_requirement_def)

lemma long_engine_record_aborts:
  "find_compatible_version_with_api_check example_download
     [long_engine_record, compatible_record] ''1.109.51242'' {''chatHooks''}
   = (Inl ValueError,
      [Searching, WillVerify, CheckingUpTo 2 2, CheckingVersion ''0.37.5'' long_requirement])"
  by (simp add: find_compatible_version_with_api_check_def MAX_VERSIONS_TO_CHECK_def
        probe_version_def long_engine_record_def stable_record_def properties_get_def
        long_requirement_nonempty long_requirement_escapes say_def Let_def)

lemma insider_requirement_refused:
  "is_version_compatible ''1.109.51242'' ''^1.109.0-insider''
     = Inr (False, [VersionComparisonFailed ''1.109.0-insider''])"
  by (simp add: comparator_defs parser_defs)

text \<open>
  C8. The comparator catches \<^verbatim>\<open>InvalidVersion\<close> only. A text that does not match the
  version pattern is answered \<open>False\<close> with one warning, as claimed
  (\<open>invalid_version_is_false\<close>). A text that matches the pattern but holds a run of 4301
  digits makes \<^verbatim>\<open>int\<close> raise \<^verbatim>\<open>ValueError\<close> inside the parser, a parse failure the
  \<^verbatim>\<open>except\<close> clause does not name: the comparator neither answers nor warns, the
  exception leaves it, on the requirement side as on the host side, and it leaves the
  selector as well, whose call of the comparator stands before its \<^verbatim>\<open>try\<close>, although a
  compatible record follows in the catalog.
\<close>

theorem long_digit_run_escapes:
  "parse long_digit_run = Inl ValueError
   \<and> is_version_compatible ''1.109.51242'' long_requirement = Inl ValueError
   \<and> is_version_compatible long_digit_run ''^1.109.0'' = Inl ValueError
   \<and> find_compatible_version_with_api_check example_download
        [long_engine_record, compatible_record] ''1.109.51242'' {''chatHooks''}
      = (Inl ValueError,
         [Searching, WillVerify, CheckingUpTo 2 2, CheckingVersion ''0.37.5'' long_requirement])
   \<and> is_version_compatible ''1.109.51242'' ''^1.109.0-insider''
      = Inr (False, [VersionComparisonFailed ''1.109.0-insider''])
   \<and> level_of (VersionComparisonFailed ''1.109.0-insider'') = Warning"
  by (intro conjI long_digit_run_parse long_requirement_escapes long_host_escapes
        long_engine_record_aborts insider_requirement_refused) simp

section \<open>Properties of the capability sources\<close>

lemmas scanner_defs = match_at_def skip_quote_def expect_def expect_word_def is_letter_def
  is_ident_def is_digit_def is_space_def Let_def

lemma findall_small: "findall small_bundle = [''foo'']"
  by (simp add: small_bundle_def scanner_defs)

lemma findall_large: "findall large_bundle = bundle_names"
  by (simp add: large_bundle_def bundle_names_def scanner_defs)

lemma findall_unusable: "findall ''exports.allApiProposals = {};'' = []"
  by (simp add: scanner_defs)

lemma first_runtime_none:
  "\<forall>p \<in> set ps. path_exists fs p = Inr False
                \<or> path_exists fs p = Inr True \<and> get_runtime_api_proposals fs p = None \<Longrightarrow>
   first_runtime_proposals fs ps = Inr None"
  by (induction ps) auto

lemma first_existing_none:
  "\<forall>p \<in> set ps. path_exists fs p = Inr False \<Longrightarrow> first_existing fs ps = Inr None"
  by (induction ps) auto

lemma first_existing_unparsed:
  assumes "\<forall>p \<in> set ps. path_exists fs p = Inr False
                        \<or> path_exists fs p = Inr True \<and> json_load fs p = None"
  shows "first_existing fs ps = Inr None
         \<or> (\<exists>p. first_existing fs ps = Inr (Some p) \<and> json_load fs p = None)"
  using assms by (induction ps) auto

lemma no_evidence_empty:
  assumes "\<forall>p \<in> set runtime_paths.
             path_exists fs p = Inr False
             \<or> path_exists fs p = Inr True \<and> get_runtime_api_proposals fs p = None"
    and "\<forall>p \<in> set product_json_paths.
             path_exists fs p = Inr False
             \<or> path_exists fs p = Inr True \<and> json_load fs p = None"
  shows "get_supported_api_proposals fs runtime_paths product_json_paths = Inr {}"
  using first_existing_unparsed[OF assms(2)]
  by (auto simp: get_supported_api_proposals_def first_runtime_none[OF assms(1)])

lemma runtime_exists_raises:
  assumes "\<forall>q \<in> set qs. path_exists fs q = Inr False
                        \<or> path_exists fs q = Inr True \<and> get_runtime_api_proposals fs q = None"
    and "path_exists fs p = Inl e"
  shows "first_runtime_proposals fs (qs @ p # rest) = Inl e"
    and "get_supported_api_proposals fs (qs @ p # rest) product_json_paths = Inl e"
proof -
  show r: "first_runtime_proposals fs (qs @ p # rest) = Inl e"
    using assms by (induction qs) auto
  show "get_supported_api_proposals fs (qs @ p # rest) product_json_paths = Inl e"
    by (simp add: get_supported_api_proposals_def r)
qed

lemma product_exists_raises:
  assumes "first_runtime_proposals fs runtime_paths = Inr None"
    and "\<forall>q \<in> set qs. path_exists fs q = Inr False"
    and "path_exists fs p = Inl e"
  shows "get_supported_api_proposals fs runtime_paths (qs @ p # rest) = Inl e"
proof -
  have "first_existing fs (qs @ p # rest) = Inl e"
    using assms(2,3) by (induction qs) auto
  then show ?thesis
    by (simp add: get_supported_api_proposals_def assms(1))
qed

lemma permissive_end_to_end:
  assumes "reaches_probe download tv ver engine url package"
    and "fst (extract_api_proposals_from_vsix package) = JArr (map JStr R)"
  shows "snd (probe_version download tv {} st ver)
          = Inr (Some \<lparr>version = ver_name ver, engine_requirement = engine, vsix_url = url\<rparr>)"
  using check_downloaded_compatible[OF assms(2), of "{}"]
  by (simp add: probe_reached[OF assms(1)])

lemma unusable_file: "get_runtime_api_proposals unusable_sources p = None"
  by (simp add: get_runtime_api_proposals_def unusable_sources_def matched_names_def
        findall_unusable del: findall.simps)

lemma unusable_runtime:
  "\<forall>p \<in> set RUNTIME_API_PROPOSALS_PATHS.
     path_exists unusable_sources p = Inr False
     \<or> path_exists unusable_sources p = Inr True
        \<and> get_runtime_api_proposals unusable_sources p = None"
proof
  fix p
  obtain b where "path_exists unusable_sources p = Inr b"
    by (simp add: unusable_sources_def)
  then show "path_exists unusable_sources p = Inr False
     \<or> path_exists unusable_sources p = Inr True
        \<and> get_runtime_api_proposals unusable_sources p = None"
    by (cases b) (simp_all add: unusable_file)
qed

lemma unusable_product:
  "\<forall>p \<in> set SYSTEM_PRODUCT_JSON_PATHS.
     path_exists unusable_sources p = Inr False
     \<or> path_exists unusable_sources p = Inr True \<and> json_load unusable_sources p = None"
proof
  fix p
  obtain b where "path_exists unusable_sources p = Inr b"
    by (simp add: unusable_sources_def)
  moreover have "json_load unusable_sources p = None"
    by (simp add: unusable_sources_def)
  ultimately show "path_exists unusable_sources p = Inr False
     \<or> path_exists unusable_sources p = Inr True \<and> json_load unusable_sources p = None"
    by (cases b) simp_all
qed

lemma unusable_sources_empty:
  "get_supported_api_proposals unusable_sources RUNTIME_API_PROPOSALS_PATHS
     SYSTEM_PRODUCT_JSON_PATHS = Inr {}"
  by (rule no_evidence_empty[OF unusable_runtime unusable_product])

lemma unsearchable_install_stat:
  "path_exists unsearchable_install
     ''/usr/share/codium/resources/app/out/vs/workbench/api/common/extensionApiProposals.js''
   = Inr False"
  "path_exists unsearchable_install
     ''/opt/vscodium-bin/resources/app/out/vs/workbench/api/common/extensionApiProposals.js''
   = Inl OSError"
  by (simp_all add: unsearchable_install_def)

lemma unsearchable_install_raises:
  "get_supported_api_proposals unsearchable_install RUNTIME_API_PROPOSALS_PATHS
     SYSTEM_PRODUCT_JSON_PATHS = Inl OSError"
  by (simp add: get_supported_api_proposals_def RUNTIME_API_PROPOSALS_PATHS_def
        unsearchable_install_stat)

text \<open>
  C5. The resolver returns the empty set when a source cannot be read or parsed: reading
  the runtime file and reading \<^verbatim>\<open>product.json\<close> are inside \<^verbatim>\<open>try\<close> blocks that catch every
  exception (\<open>no_evidence_empty\<close>), and with that set every requirement is accepted
  (\<open>permissive_end_to_end\<close>). The two calls of \<^verbatim>\<open>exists\<close> that precede the reading are not
  inside a \<^verbatim>\<open>try\<close>. On a host where \<^verbatim>\<open>/opt/vscodium-bin\<close> may not be searched and nothing
  else is installed, no source succeeds, and the resolver does not return the empty set:
  the first runtime path is answered absent, and at the second the \<^verbatim>\<open>OSError\<close> of \<^verbatim>\<open>stat\<close>
  leaves \<^verbatim>\<open>exists\<close> and the resolver. Where the same files exist and are unusable, it
  returns the empty set.
\<close>

theorem unsearchable_directory_raises:
  "path_exists unsearchable_install
     ''/usr/share/codium/resources/app/out/vs/workbench/api/common/extensionApiProposals.js''
   = Inr False
   \<and> path_exists unsearchable_install
     ''/opt/vscodium-bin/resources/app/out/vs/workbench/api/common/extensionApiProposals.js''
   = Inl OSError
   \<and> get_supported_api_proposals unsearchable_install RUNTIME_API_PROPOSALS_PATHS
        SYSTEM_PRODUCT_JSON_PATHS = Inl OSError
   \<and> get_supported_api_proposals unusable_sources RUNTIME_API_PROPOSALS_PATHS
        SYSTEM_PRODUCT_JSON_PATHS = Inr {}"
  by (intro conjI unsearchable_install_stat unsearchable_install_raises unusable_sources_empty)

lemma capability_name_span:
  assumes "capability_name n" and "\<not> is_ident c"
  shows "takeWhile is_ident (n @ c # t) = n" and "dropWhile is_ident (n @ c # t) = c # t"
    and "takeWhile is_letter (take 1 (n @ c # t)) \<noteq> []" and "skip_quote (n @ c # t) = n @ c # t"
proof -
  from assms(1) have all: "\<forall>x \<in> set n. is_ident x" and first: "takeWhile is_letter (take 1 n) \<noteq> []"
    by (simp_all add: capability_name_def list_all_iff)
  from first obtain a m where n: "n = a # m" and a: "is_letter a"
    by (cases n) (auto split: if_splits)
  show "takeWhile is_ident (n @ c # t) = n"
    using all assms(2) by (simp add: takeWhile_append2)
  show "dropWhile is_ident (n @ c # t) = c # t"
    using all assms(2) by (simp add: dropWhile_append2)
  show "takeWhile is_letter (take 1 (n @ c # t)) \<noteq> []"
    using n a by simp
  have "a \<noteq> CHR 0x22 \<and> a \<noteq> CHR 0x27"
    using a unfolding is_letter_def by (elim disjE | simp)+
  then show "skip_quote (n @ c # t) = n @ c # t"
    using n by (simp add: skip_quote_def)
qed

lemma match_at_bare:
  assumes "capability_name n"
  shows "match_at (n @ '':{version:1'' @ rest) = Some (n, rest)"
proof -
  have c: "\<not> is_ident CHR '':''"
    by (simp add: is_ident_def is_letter_def is_digit_def)
  note sp = capability_name_span[OF assms c, of "''{version:1'' @ rest"]
  have "match_at (n @ CHR '':'' # ''{version:1'' @ rest) = Some (n, rest)"
    unfolding match_at_def Let_def sp(4) if_not_P[OF sp(3)] sp(1,2)
    by (simp add: expect_def expect_word_def skip_quote_def is_space_def is_digit_def)
  then show ?thesis by simp
qed

lemma match_at_quoted:
  assumes "capability_name n"
  shows "match_at (CHR 0x22 # n @ CHR 0x22 # '':{version:1'' @ rest) = Some (n, rest)"
proof -
  have c: "\<not> is_ident CHR 0x22"
    by (simp add: is_ident_def is_letter_def is_digit_def)
  note sp = capability_name_span[OF assms c, of "'':{version:1'' @ rest"]
  have q: "skip_quote (CHR 0x22 # n @ CHR 0x22 # '':{version:1'' @ rest)
             = n @ CHR 0x22 # '':{version:1'' @ rest"
    by (simp add: skip_quote_def)
  have q2: "skip_quote (CHR 0x22 # '':{version:1'' @ rest) = '':{version:1'' @ rest"
    by (simp add: skip_quote_def)
  show ?thesis
    unfolding match_at_def Let_def q if_not_P[OF sp(3)] sp(1,2) q2
    by (simp add: expect_def expect_word_def is_space_def is_digit_def)
qed

text \<open>
  C9. The bundle reader, as the specification describes it, answers \<open>None\<close> when fewer than
  20 distinct names are matched and the whole set of matched names when there are 20 or
  more. The names are matched by the pattern of the runtime file reader, which matches a
  declaration \<^verbatim>\<open>name:{version:1\<close> and captures the same name whether or not the name is in
  quotes.
\<close>

theorem bundle_threshold:
  "(card (matched_names content) < 20 \<longrightarrow> bundle_reader (Some content) = None)
   \<and> (20 \<le> card (matched_names content)
        \<longrightarrow> bundle_reader (Some content) = Some (matched_names content))
   \<and> (\<forall>n rest. capability_name n \<longrightarrow>
          match_at (n @ '':{version:1'' @ rest) = Some (n, rest)
          \<and> match_at (CHR 0x22 # n @ CHR 0x22 # '':{version:1'' @ rest) = Some (n, rest))"
  using match_at_bare match_at_quoted
  by (simp add: bundle_reader_def NOISE_THRESHOLD_def)

lemma small_bundle_names: "matched_names small_bundle = {''foo''}"
  by (simp add: matched_names_def findall_small)

lemma large_bundle_names: "matched_names large_bundle = set bundle_names"
proof -
  have "''version'' \<notin> set bundle_names" by (simp add: bundle_names_def)
  then show ?thesis by (simp add: matched_names_def findall_large)
qed

lemma bundle_names_card: "card (set bundle_names) = 20"
proof -
  have "distinct bundle_names" by (simp add: bundle_names_def)
  then have "card (set bundle_names) = length bundle_names" by (rule distinct_card)
  then show ?thesis by (simp add: bundle_names_def)
qed

theorem bundle_threshold_witness:
  "card (matched_names small_bundle) < 20
   \<and> bundle_reader (Some small_bundle) = None
   \<and> 20 \<le> card (matched_names large_bundle)
   \<and> bundle_reader (Some large_bundle) = Some (set bundle_names)
   \<and> capability_name ''chatHooks''
   \<and> match_at (''chatHooks'' @ '':{version:1'' @ '',proposal:0}'') = Some (''chatHooks'', '',proposal:0}'')
   \<and> match_at (CHR 0x22 # ''chatHooks'' @ CHR 0x22 # '':{version:1'' @ '',proposal:0}'')
       = Some (''chatHooks'', '',proposal:0}'')"
proof -
  have s: "card (matched_names small_bundle) < 20"
    by (simp add: small_bundle_names)
  have l: "20 \<le> card (matched_names large_bundle)"
    by (simp add: large_bundle_names bundle_names_card)
  have n: "capability_name ''chatHooks''"
    by (simp add: capability_name_def is_letter_def is_ident_def)
  from bundle_threshold[of small_bundle] s have a: "bundle_reader (Some small_bundle) = None"
    by blast
  from bundle_threshold[of large_bundle] l
  have b: "bundle_reader (Some large_bundle) = Some (set bundle_names)"
    by (simp add: large_bundle_names)
  from bundle_threshold[of small_bundle] n
  have c: "match_at (''chatHooks'' @ '':{version:1'' @ '',proposal:0}'') = Some (''chatHooks'', '',proposal:0}'')
     \<and> match_at (CHR 0x22 # ''chatHooks'' @ CHR 0x22 # '':{version:1'' @ '',proposal:0}'')
       = Some (''chatHooks'', '',proposal:0}'')"
    by blast
  from s a l b n c show ?thesis by blast
qed

end
